theory Spec2Isabelle
  imports
    Main
    "HOL-Library.Sublist"
    "HOL-Library.AList"
    "HOL-Library.Char_ord"
    "HOL-Library.List_Lexorder"
    "HOL-Library.Option_ord"
begin

section \<open>Python values\<close>

text \<open>
  The program passes JSON-like dictionaries between its stages. A Python value is one of
  the shapes below. A dictionary is an association list in insertion order, as Python
  keeps it; its lookup is \<open>map_of\<close>. A string is the list of the bytes of its UTF-8
  encoding: equality, order, concatenation and the substring test on the bytes agree with
  Python's on the code points.
\<close>

datatype pyval =
    PNone
  | PBool bool
  | PInt int
  | PStr string
  | PList "pyval list"
  | PDict "(string \<times> pyval) list"

type_synonym pydict = "(string \<times> pyval) list"

text \<open>Python truthiness, as used by \<open>if x:\<close>, \<open>x and y\<close>, \<open>x or y\<close> and \<open>bool(x)\<close>.\<close>

fun truthy :: "pyval \<Rightarrow> bool" where
  "truthy PNone = False"
| "truthy (PBool b) = b"
| "truthy (PInt i) = (i \<noteq> 0)"
| "truthy (PStr s) = (s \<noteq> [])"
| "truthy (PList xs) = (xs \<noteq> [])"
| "truthy (PDict kvs) = (kvs \<noteq> [])"

text \<open>An \<open>Optional[str]\<close> field as a Python value.\<close>

fun opt_str :: "string option \<Rightarrow> pyval" where
  "opt_str None = PNone"
| "opt_str (Some s) = PStr s"

text \<open>\<open>d.get(k)\<close> and \<open>d.get(k, default)\<close>.\<close>

definition dict_get :: "pydict \<Rightarrow> string \<Rightarrow> pyval" where
  "dict_get d k = (case map_of d k of None \<Rightarrow> PNone | Some v \<Rightarrow> v)"

definition dict_get_default :: "pydict \<Rightarrow> string \<Rightarrow> pyval \<Rightarrow> pyval" where
  "dict_get_default d k dflt = (case map_of d k of None \<Rightarrow> dflt | Some v \<Rightarrow> v)"

section \<open>Flow engine (app/core/flow\_engine.py)\<close>

text \<open>
  A flow node as validated by the \<open>FlowNode\<close> schema (app/api/flows.py): \<open>id\<close> and
  \<open>type\<close> are strings, \<open>text\<close>, \<open>intent\<close> and \<open>reply\<close> are optional strings and
  \<open>escalate\<close> is an optional boolean.
\<close>

record FlowNode =
  node_id :: string
  node_type :: string
  node_text :: "string option"
  node_intent :: "string option"
  node_reply :: "string option"
  node_escalate :: "bool option"

record Flow =
  flow_id :: string
  flow_name :: "string option"
  flow_description :: "string option"
  nodes :: "FlowNode list"
  updated_at :: "string option"

text \<open>\<open>bool(n.get("escalate", False))\<close>: an absent (null) flag is false.\<close>

fun escalate_flag :: "bool option \<Rightarrow> bool" where
  "escalate_flag None = False"
| "escalate_flag (Some b) = b"

text \<open>
  The first loop of \<open>run_flow\<close>:
  \<^verbatim>\<open>for n in nodes:
      if n.get("intent") and n.get("intent") == intent:
          return {"reply": n.get("reply"), "escalate": bool(n.get("escalate", False))}\<close>
  \<open>None\<close> means that the loop ended without returning.
\<close>

fun intent_loop :: "FlowNode list \<Rightarrow> pyval \<Rightarrow> pydict option" where
  "intent_loop [] intent = None"
| "intent_loop (n # ns) intent =
     (if truthy (opt_str (node_intent n)) \<and> opt_str (node_intent n) = intent
      then Some [(''reply'', opt_str (node_reply n)),
                 (''escalate'', PBool (escalate_flag (node_escalate n)))]
      else intent_loop ns intent)"

text \<open>
  The second loop:
  \<^verbatim>\<open>for n in nodes:
      if n.get("id") == "start" and n.get("type") in ("ask", "say"):
          return {"reply": n.get("text"), "escalate": False}\<close>
\<close>

definition is_start_prompt :: "FlowNode \<Rightarrow> bool" where
  "is_start_prompt n \<longleftrightarrow>
     node_id n = ''start'' \<and> (node_type n = ''ask'' \<or> node_type n = ''say'')"

fun start_loop :: "FlowNode list \<Rightarrow> pydict option" where
  "start_loop [] = None"
| "start_loop (n # ns) =
     (if is_start_prompt n
      then Some [(''reply'', opt_str (node_text n)), (''escalate'', PBool False)]
      else start_loop ns)"

text \<open>\<open>FlowEngine.run_flow(flow, intent, text)\<close>.\<close>

definition run_flow :: "Flow \<Rightarrow> pyval \<Rightarrow> string \<Rightarrow> pydict" where
  "run_flow flow intent text =
     (case (if truthy intent then intent_loop (nodes flow) intent else None) of
        Some r \<Rightarrow> r
      | None \<Rightarrow>
          (case start_loop (nodes flow) of
             Some r \<Rightarrow> r
           | None \<Rightarrow> [(''reply'', PNone), (''escalate'', PBool False)]))"

section \<open>Responder client (app/core/llm\_client.py)\<close>

text \<open>
  Exceptions are values: every \<open>except Exception\<close> of the program catches whatever the
  guarded block raised, so one constructor is enough.
\<close>

datatype exn = Exception

text \<open>
  \<open>str.lower()\<close>. On ASCII text the letters \<open>A\<close> to \<open>Z\<close> move to \<open>a\<close> to \<open>z\<close> and every
  other character stays. On text with a character beyond ASCII the result comes from the
  interpreter's Unicode tables (a character may become two, a capital sigma depends on its
  neighbours): it is the parameter \<open>ulower\<close>. \<open>needle in haystack\<close> on strings is
  the contiguous-sublist test.
\<close>

definition is_ascii :: "string \<Rightarrow> bool" where
  "is_ascii s \<longleftrightarrow> list_all (\<lambda>c. of_char c < (128 :: nat)) s"

definition lower_char :: "char \<Rightarrow> char" where
  "lower_char c =
     (if CHR ''A'' \<le> c \<and> c \<le> CHR ''Z'' then char_of (of_char c + (32 :: nat)) else c)"

definition lower :: "(string \<Rightarrow> string) \<Rightarrow> string \<Rightarrow> string" where
  "lower ulower s = (if is_ascii s then map lower_char s else ulower s)"

definition py_in :: "string \<Rightarrow> string \<Rightarrow> bool" where
  "py_in needle haystack \<longleftrightarrow> sublist needle haystack"

text \<open>
  \<open>str.strip()\<close>: the whitespace characters at both ends are removed. They are the
  characters for which \<open>str.isspace()\<close> holds: U+0009 to U+000D, U+001C to U+0020, U+0085,
  U+00A0, U+1680, U+2000 to U+200A, U+2028, U+2029, U+202F, U+205F and U+3000, here in
  UTF-8.
\<close>

definition spaces :: "string list" where
  "spaces =
     map (\<lambda>c. [c]) [CHR 0x09, CHR 0x0A, CHR 0x0B, CHR 0x0C, CHR 0x0D,
                    CHR 0x1C, CHR 0x1D, CHR 0x1E, CHR 0x1F, CHR 0x20]
     @ [[CHR 0xC2, CHR 0x85], [CHR 0xC2, CHR 0xA0], [CHR 0xE1, CHR 0x9A, CHR 0x80]]
     @ map (\<lambda>c. [CHR 0xE2, CHR 0x80, c])
         [CHR 0x80, CHR 0x81, CHR 0x82, CHR 0x83, CHR 0x84, CHR 0x85, CHR 0x86, CHR 0x87,
          CHR 0x88, CHR 0x89, CHR 0x8A, CHR 0xA8, CHR 0xA9, CHR 0xAF]
     @ [[CHR 0xE2, CHR 0x81, CHR 0x9F], [CHR 0xE3, CHR 0x80, CHR 0x80]]"

fun lstrip :: "string list \<Rightarrow> string \<Rightarrow> string" where
  "lstrip codes [] = []"
| "lstrip codes (c # cs) =
     (case find (\<lambda>p. p \<noteq> [] \<and> prefix p (c # cs)) codes of
        None \<Rightarrow> c # cs
      | Some p \<Rightarrow> lstrip codes (drop (length p - 1) cs))"

definition strip :: "string \<Rightarrow> string" where
  "strip s = rev (lstrip (map rev spaces) (rev (lstrip spaces s)))"

text \<open>
  The reply of the balance rule holds three non-ASCII code points in the source
  (U+00E2, U+201A, U+00B9); they are written here as their UTF-8 bytes.
\<close>

definition balance_reply :: string where
  "balance_reply =
     ''Your account balance is '' @
     [CHR 0xC3, CHR 0xA2, CHR 0xE2, CHR 0x80, CHR 0x9A, CHR 0xC2, CHR 0xB9] @ ''3,420.''"

text \<open>
  \<open>_rule_based_response(text, context)\<close>: a chain of \<open>if\<close> statements over the lowered
  text, each returning at once.
\<close>

definition rule_based_response :: "(string \<Rightarrow> string) \<Rightarrow> string \<Rightarrow> pydict" where
  "rule_based_response ulower text =
     (let t = lower ulower text in
      if py_in ''balance'' t \<or> py_in ''account'' t then
        [(''intent'', PStr ''account_balance''), (''reply'', PStr balance_reply)]
      else if py_in ''payment'' t \<or> py_in ''bill'' t then
        [(''intent'', PStr ''payments''),
         (''reply'', PStr ''You can make payments via the web portal. Would you like a link?'')]
      else if py_in ''agent'' t \<or> py_in ''human'' t \<or> py_in ''representative'' t then
        [(''intent'', PStr ''connect_agent''), (''reply'', PStr ''Connecting you to an agent.''),
         (''escalate'', PBool True)]
      else if py_in ''hello'' t \<or> py_in ''hi'' t then
        [(''intent'', PStr ''greeting''), (''reply'', PStr ''Hello! How can I help you today?'')]
      else
        [(''intent'', PStr ''unknown''),
         (''reply'', PStr ''Sorry, I didn't understand that. Could you repeat?'')])"

text \<open>
  The client: its mode and whether the \<open>openai\<close> package was importable. The request to
  the backend (\<open>_blocking_openai_chat\<close> run in the executor) is a parameter: it either
  raises or returns the parsed dictionary. Both handlers on the way (the one inside
  \<open>_blocking_openai_chat\<close> and the one in \<open>generate_response\<close>) fall back to the rule table.
\<close>

record LLMClient =
  llm_mode :: string
  has_openai :: bool

definition generate_response ::
  "(string \<Rightarrow> string) \<Rightarrow> LLMClient \<Rightarrow> (string \<Rightarrow> exn + pydict) \<Rightarrow> string \<Rightarrow> pydict" where
  "generate_response ulower client request text0 =
     (let text = strip text0 in
      if text = [] then
        [(''intent'', PStr ''none''), (''reply'', PStr ''I didn't hear anything.'')]
      else if llm_mode client = ''openai'' \<and> has_openai client then
        (case request text of
           Inr r \<Rightarrow> r
         | Inl e \<Rightarrow> rule_based_response ulower text)
      else rule_based_response ulower text)"

section \<open>The process state\<close>

text \<open>
  The program keeps its state in module-level dictionaries, in Redis and in a database
  table, and it reads the wall clock. One record holds all of it:
  \<^item> \<open>clock\<close> and \<open>ticks\<close>: the \<open>n\<close>-th call of \<open>datetime.utcnow().isoformat()\<close> returns
    \<open>clock n\<close>;
  \<^item> \<open>faults\<close>: the outcomes of the operations on external services (Redis commands,
    database statements, imports of optional modules), in program order: \<open>True\<close> means that
    the operation raises; when the list is used up, nothing fails any more;
  \<^item> \<open>redis_client\<close>: whether \<open>_redis_client\<close> is set; \<open>redis_sessions\<close> and
    \<open>redis_transcripts\<close>: the values under the keys \<open>session:<id>\<close> and \<open>transcripts:<id>\<close>
    (a session is stored as JSON text and parsed back: the round trip is the identity on
    the values modelled here);
  \<^item> \<open>INMEM_SESSIONS\<close> and \<open>INMEM_TRANSCRIPTS\<close>: the fallback dictionaries of
    app/state/session\_store.py;
  \<^item> \<open>transcripts_table\<close>: the rows of the \<open>transcripts\<close> table, in insertion order;
  \<^item> \<open>background_tasks\<close>: the pipeline runs scheduled by the webhook.
\<close>

record CallWebhook =
  call_id :: string
  from_number :: "string option"
  to_number :: "string option"
  media_url :: "string option"
  direction :: "string option"

record transcript_row =
  row_id :: nat
  row_call_id :: string
  row_timestamp :: "string option"
  row_text :: string
  row_source :: "string option"
  row_created_at :: "string option"

datatype task = ProcessCall CallWebhook | StubProcessCall CallWebhook

record world =
  clock :: "nat \<Rightarrow> string"
  ticks :: nat
  faults :: "bool list"
  redis_client :: bool
  redis_sessions :: "string \<rightharpoonup> pydict"
  redis_transcripts :: "string \<rightharpoonup> pyval list"
  INMEM_SESSIONS :: "string \<rightharpoonup> pydict"
  INMEM_TRANSCRIPTS :: "string \<rightharpoonup> pyval list"
  transcripts_table :: "transcript_row list"
  background_tasks :: "task list"

text \<open>\<open>datetime.utcnow().isoformat()\<close>.\<close>

definition utcnow :: "world \<Rightarrow> string \<times> world" where
  "utcnow w = (clock w (ticks w), w\<lparr>ticks := Suc (ticks w)\<rparr>)"

text \<open>One operation on an external service: the flag says whether it raises.\<close>

definition external :: "world \<Rightarrow> bool \<times> world" where
  "external w =
     (case faults w of
        [] \<Rightarrow> (False, w)
      | f # fs \<Rightarrow> (f, w\<lparr>faults := fs\<rparr>))"

text \<open>
  \<open>d[k] = v\<close> is \<open>AList.update k v d\<close>: an existing key keeps its place, a new key goes
  to the end. \<open>d.update(patch)\<close> assigns the items of the patch in their order.
\<close>

definition dict_update :: "pydict \<Rightarrow> pydict \<Rightarrow> pydict" where
  "dict_update d patch = fold (\<lambda>(k, v) acc. AList.update k v acc) patch d"

section \<open>Session store (app/state/session\_store.py)\<close>

text \<open>
  \<open>set_session(call_id, session)\<close>: to Redis when a client is set and the command does
  not raise, to the in-memory dictionary otherwise.
\<close>

definition set_session :: "world \<Rightarrow> string \<Rightarrow> pydict \<Rightarrow> world" where
  "set_session w cid session =
     (if redis_client w then
        (let (raised, w1) = external w in
         if \<not> raised then w1\<lparr>redis_sessions := (redis_sessions w1)(cid \<mapsto> session)\<rparr>
         else w1\<lparr>INMEM_SESSIONS := (INMEM_SESSIONS w1)(cid \<mapsto> session)\<rparr>)
      else w\<lparr>INMEM_SESSIONS := (INMEM_SESSIONS w)(cid \<mapsto> session)\<rparr>)"

text \<open>\<open>get_session(call_id)\<close>: the session or \<open>None\<close>.\<close>

definition get_session :: "world \<Rightarrow> string \<Rightarrow> pydict option \<times> world" where
  "get_session w cid =
     (if redis_client w then
        (let (raised, w1) = external w in
         if \<not> raised then (redis_sessions w1 cid, w1)
         else (INMEM_SESSIONS w1 cid, w1))
      else (INMEM_SESSIONS w cid, w))"

text \<open>
  \<open>update_session(call_id, patch)\<close>. The session is read from Redis (\<open>{}\<close> when the key
  is absent); when there is no client or the read raises, it is the in-memory one (\<open>{}\<close>
  when absent). \<open>session.update(patch)\<close> changes the dictionary in place: when it is the
  object held by \<open>_INMEM_SESSIONS\<close>, that entry changes with it, whatever happens next.
  The result is written to Redis, or to \<open>_INMEM_SESSIONS\<close> when there is no client or the
  write raises, and returned.
\<close>

definition update_session :: "world \<Rightarrow> string \<Rightarrow> pydict \<Rightarrow> pydict \<times> world" where
  "update_session w cid patch =
     (let (loaded, w1) =
            (if redis_client w then
               (let (raised, w') = external w in
                if \<not> raised
                then (Some (case redis_sessions w' cid of None \<Rightarrow> [] | Some s \<Rightarrow> s), w')
                else (None, w'))
             else (None, w));
          session =
            (case loaded of
               Some s \<Rightarrow> s
             | None \<Rightarrow> (case INMEM_SESSIONS w1 cid of None \<Rightarrow> [] | Some s \<Rightarrow> s));
          merged = dict_update session patch;
          w2 = (if loaded = None \<and> INMEM_SESSIONS w1 cid \<noteq> None
                then w1\<lparr>INMEM_SESSIONS := (INMEM_SESSIONS w1)(cid \<mapsto> merged)\<rparr>
                else w1)
      in if redis_client w2 then
           (let (raised, w3) = external w2 in
            if \<not> raised
            then (merged, w3\<lparr>redis_sessions := (redis_sessions w3)(cid \<mapsto> merged)\<rparr>)
            else (merged, w3\<lparr>INMEM_SESSIONS := (INMEM_SESSIONS w3)(cid \<mapsto> merged)\<rparr>))
         else (merged, w2\<lparr>INMEM_SESSIONS := (INMEM_SESSIONS w2)(cid \<mapsto> merged)\<rparr>))"

text \<open>
  \<open>append_transcript(call_id, transcript_entry)\<close>. First the entry goes to the Redis list
  (\<open>RPUSH\<close>) or to \<open>_INMEM_TRANSCRIPTS\<close>. Then, inside a \<open>try\<close>, the entry is appended to
  the session's \<open>transcripts\<close> list and the session is saved. \<open>session.get("transcripts")
  or []\<close> takes a fresh list for a falsy value; \<open>.append\<close> on a truthy value that is not a
  list raises, and the handler then leaves the session as it was. As in \<open>update_session\<close>,
  a session that \<open>get_session\<close> took from \<open>_INMEM_SESSIONS\<close> (no client, or the read raised)
  is the stored object itself and changes in place.
\<close>

definition push_transcript :: "world \<Rightarrow> string \<Rightarrow> pyval \<Rightarrow> world" where
  "push_transcript w cid entry =
     (let inmem = (\<lambda>v. v\<lparr>INMEM_TRANSCRIPTS := (INMEM_TRANSCRIPTS v)
            (cid \<mapsto> (case INMEM_TRANSCRIPTS v cid of None \<Rightarrow> [] | Some es \<Rightarrow> es) @ [entry])\<rparr>)
      in if redis_client w then
           (let (raised, w1) = external w in
            if \<not> raised
            then w1\<lparr>redis_transcripts := (redis_transcripts w1)
                   (cid \<mapsto> (case redis_transcripts w1 cid of None \<Rightarrow> [] | Some es \<Rightarrow> es) @ [entry])\<rparr>
            else inmem w1)
         else inmem w)"

definition appended_transcripts :: "pyval \<Rightarrow> pyval \<Rightarrow> exn + pyval list" where
  "appended_transcripts current entry =
     (case current of
        PList es \<Rightarrow> Inr (es @ [entry])
      | v \<Rightarrow> if truthy v then Inl Exception else Inr [entry])"

definition append_transcript :: "world \<Rightarrow> string \<Rightarrow> pyval \<Rightarrow> world" where
  "append_transcript w cid entry =
     (let w1 = push_transcript w cid entry;
          (found, w2) = get_session w1 cid
      in case found of
           None \<Rightarrow>
             set_session w2 cid [(''call_id'', PStr cid), (''transcripts'', PList [entry])]
         | Some session \<Rightarrow>
             (case appended_transcripts (dict_get session ''transcripts'') entry of
                Inl e \<Rightarrow> w2
              | Inr es \<Rightarrow>
                  (let session' = AList.update ''transcripts'' (PList es) session;
                       w3 = (if \<not> redis_client w1 \<or> fst (external w1)
                             then w2\<lparr>INMEM_SESSIONS := (INMEM_SESSIONS w2)(cid \<mapsto> session')\<rparr>
                             else w2)
                   in set_session w3 cid session')))"

section \<open>Transcript store (app/storage/transcripts\_store.py)\<close>

text \<open>
  The columns \<open>call_id\<close>, \<open>timestamp\<close>, \<open>text\<close>, \<open>source\<close> and \<open>created_at\<close> hold text.
  \<open>column_value\<close> is what SQLite stores in such a column for a bound Python value: a string
  as it is, \<open>None\<close> as \<open>NULL\<close>, an integer that fits 64 bits as its decimal digits, a
  boolean as \<open>1\<close> or \<open>0\<close>; binding a larger integer, a list or a dictionary raises.
\<close>

fun digits :: "nat \<Rightarrow> string" where
  "digits n =
     (if n < 10 then [char_of (48 + n)] else digits (n div 10) @ [char_of (48 + n mod 10)])"

declare digits.simps [simp del]

definition decimal :: "int \<Rightarrow> string" where
  "decimal i = (if i < 0 then CHR ''-'' # digits (nat (- i)) else digits (nat i))"

fun column_value :: "pyval \<Rightarrow> exn + string option" where
  "column_value PNone = Inr None"
| "column_value (PStr s) = Inr (Some s)"
| "column_value (PInt i) =
     (if - (2 ^ 63) \<le> i \<and> i < 2 ^ 63 then Inr (Some (decimal i)) else Inl Exception)"
| "column_value (PBool b) = Inr (Some (if b then ''1'' else ''0''))"
| "column_value (PList xs) = Inl Exception"
| "column_value (PDict d) = Inl Exception"

text \<open>A row read back as a dictionary (\<open>dict(row)\<close>).\<close>

definition row_dict :: "transcript_row \<Rightarrow> pyval" where
  "row_dict r =
     PDict [(''id'', PInt (int (row_id r))), (''call_id'', PStr (row_call_id r)),
            (''timestamp'', opt_str (row_timestamp r)), (''text'', PStr (row_text r)),
            (''source'', opt_str (row_source r)), (''created_at'', opt_str (row_created_at r))]"

text \<open>
  \<open>save_transcript(entry)\<close>. The entry is a dictionary that the function changes in
  place (missing \<open>timestamp\<close> and \<open>created_at\<close> are filled from the clock), so the entry
  is returned next to the result. \<open>insert_transcript\<close> is the \<open>INSERT\<close> and the read-back
  of the row: the \<open>INSERT\<close> raises when the database fails, when a value cannot be bound,
  and when \<open>call_id\<close> or \<open>text\<close>, which are \<open>NOT NULL\<close>, is \<open>None\<close>.
\<close>

definition fill_from_clock :: "string \<Rightarrow> pydict \<times> world \<Rightarrow> pydict \<times> world" where
  "fill_from_clock k ew =
     (let (entry, w) = ew in
      if \<not> truthy (dict_get entry k)
      then (let (now, w1) = utcnow w in (AList.update k (PStr now) entry, w1))
      else (entry, w))"

definition bound_row :: "nat \<Rightarrow> pydict \<Rightarrow> transcript_row option" where
  "bound_row n entry =
     (case (column_value (dict_get entry ''call_id''), column_value (dict_get entry ''timestamp''),
            column_value (dict_get entry ''text''), column_value (dict_get entry ''source''),
            column_value (dict_get entry ''created_at'')) of
        (Inr (Some cid), Inr ts, Inr (Some txt), Inr src, Inr created) \<Rightarrow>
          Some \<lparr>row_id = n, row_call_id = cid, row_timestamp = ts, row_text = txt,
                row_source = src, row_created_at = created\<rparr>
      | other \<Rightarrow> None)"

definition insert_transcript :: "world \<Rightarrow> pydict \<Rightarrow> (exn + pyval) \<times> world" where
  "insert_transcript w entry =
     (let (raised, w1) = external w in
      case bound_row (Suc (length (transcripts_table w1))) entry of
        None \<Rightarrow> (Inl Exception, w1)
      | Some row \<Rightarrow>
          if raised then (Inl Exception, w1)
          else
            (let w2 = w1\<lparr>transcripts_table := transcripts_table w1 @ [row]\<rparr>;
                 (raised', w3) = external w2
             in if raised' then (Inl Exception, w3)
                else (Inr (row_dict row), w3)))"

definition save_transcript :: "world \<Rightarrow> pydict \<Rightarrow> (exn + pyval) \<times> pydict \<times> world" where
  "save_transcript w entry =
     (let (entry1, w1) = fill_from_clock ''created_at'' (fill_from_clock ''timestamp'' (entry, w));
          (result, w2) = insert_transcript w1 entry1
      in (result, entry1, w2))"

text \<open>
  The query of \<open>query_transcripts\<close>: each filter is added only for a truthy argument; a
  comparison with a \<open>NULL\<close> timestamp is not true, so the row is dropped; the rows are
  ordered by timestamp, descending (\<open>NULL\<close> sorts lowest), rows with equal timestamps in
  the order of their insertion, as SQLite returns them, and cut at \<open>limit\<close>. Strings
  compare lexicographically.
\<close>

fun sql_ge :: "string option \<Rightarrow> string option \<Rightarrow> bool" where
  "sql_ge (Some a) (Some b) = (b \<le> a)"
| "sql_ge a b = False"

definition order_by_desc :: "('a \<Rightarrow> 'k::linorder) \<Rightarrow> 'a list \<Rightarrow> 'a list" where
  "order_by_desc key xs = rev (sort_key key (rev xs))"

definition select_transcripts ::
  "transcript_row list \<Rightarrow> string option \<Rightarrow> string option \<Rightarrow> string option \<Rightarrow> nat
     \<Rightarrow> transcript_row list" where
  "select_transcripts rows cid from_ts to_ts limit =
     (let q1 = (if truthy (opt_str cid) then filter (\<lambda>r. Some (row_call_id r) = cid) rows
                else rows);
          q2 = (if truthy (opt_str from_ts) then filter (\<lambda>r. sql_ge (row_timestamp r) from_ts) q1
                else q1);
          q3 = (if truthy (opt_str to_ts) then filter (\<lambda>r. sql_ge to_ts (row_timestamp r)) q2
                else q2)
      in take limit (order_by_desc row_timestamp q3))"

text \<open>\<open>query_transcripts(call_id, from_ts, to_ts, limit)\<close>: the query may raise.\<close>

definition query_transcripts ::
  "world \<Rightarrow> string option \<Rightarrow> string option \<Rightarrow> string option \<Rightarrow> nat
     \<Rightarrow> (exn + pyval list) \<times> world" where
  "query_transcripts w cid from_ts to_ts limit =
     (let (raised, w1) = external w in
      if raised then (Inl Exception, w1)
      else (Inr (map row_dict (select_transcripts (transcripts_table w1) cid from_ts to_ts limit)),
            w1))"

section \<open>Transcript search endpoint (app/api/transcripts.py)\<close>

text \<open>
  The module's own \<open>_INMEM_TRANSCRIPTS\<close> maps a call identifier to a list of entries. It
  is set to \<open>{}\<close> when the module is loaded, and no statement of the repository writes to
  it. An entry has the fields of the \<open>TranscriptEntry\<close> schema (app/models/schemas.py); its
  timestamp is a string or \<open>None\<close>.
\<close>

record TranscriptEntry =
  entry_id :: "int option"
  entry_call_id :: string
  entry_timestamp :: "string option"
  entry_text :: string
  entry_source :: "string option"

definition entry_dict :: "TranscriptEntry \<Rightarrow> pyval" where
  "entry_dict x =
     PDict [(''id'', (case entry_id x of None \<Rightarrow> PNone | Some i \<Rightarrow> PInt i)),
            (''call_id'', PStr (entry_call_id x)), (''timestamp'', opt_str (entry_timestamp x)),
            (''text'', PStr (entry_text x)), (''source'', opt_str (entry_source x))]"

definition api_INMEM_TRANSCRIPTS :: "(string \<times> TranscriptEntry list) list" where
  "api_INMEM_TRANSCRIPTS = []"

text \<open>
  The handler's fallback, for when the store cannot be imported or the query raises. With
  a call identifier it returns the last \<open>limit\<close> entries of that call (\<open>entries[-limit:]\<close>)
  as they are; without one it filters all entries by the time range, sorts them by
  timestamp, descending, and keeps the first \<open>limit\<close>. \<open>sorted\<close> is stable, also with
  \<open>reverse=True\<close>; it compares the keys, so with two or more entries a \<open>None\<close> among the
  timestamps makes it raise \<open>TypeError\<close>, and nothing catches that.
\<close>

definition in_range :: "string option \<Rightarrow> string option \<Rightarrow> TranscriptEntry \<Rightarrow> bool" where
  "in_range from_ts to_ts x =
     (case entry_timestamp x of
        None \<Rightarrow> True
      | Some ts \<Rightarrow>
          if ts = [] then True
          else if truthy (opt_str from_ts) \<and> Some ts < from_ts then False
          else if truthy (opt_str to_ts) \<and> to_ts < Some ts then False
          else True)"

definition sorted_desc :: "TranscriptEntry list \<Rightarrow> exn + TranscriptEntry list" where
  "sorted_desc xs =
     (if length xs < 2 then Inr xs
      else if list_ex (\<lambda>x. entry_timestamp x = None) xs then Inl Exception
      else Inr (rev (sort_key entry_timestamp (rev xs))))"

definition last_entries :: "nat \<Rightarrow> 'a list \<Rightarrow> 'a list" where
  "last_entries limit entries =
     (if limit = 0 then entries else drop (length entries - limit) entries)"

definition search_all ::
  "(string \<times> TranscriptEntry list) list \<Rightarrow> string option \<Rightarrow> string option \<Rightarrow> nat
     \<Rightarrow> exn + pyval list" where
  "search_all inmem from_ts to_ts limit =
     (case sorted_desc (filter (in_range from_ts to_ts) (concat (map snd inmem))) of
        Inl e \<Rightarrow> Inl e
      | Inr filtered_sorted \<Rightarrow> Inr (map entry_dict (take limit filtered_sorted)))"

definition search_fallback ::
  "(string \<times> TranscriptEntry list) list \<Rightarrow> string option \<Rightarrow> string option \<Rightarrow> string option
     \<Rightarrow> nat \<Rightarrow> exn + pyval list" where
  "search_fallback inmem cid from_ts to_ts limit =
     (case cid of
        Some c \<Rightarrow>
          if c \<noteq> [] then
            Inr (map entry_dict
                   (last_entries limit (case map_of inmem c of None \<Rightarrow> [] | Some es \<Rightarrow> es)))
          else search_all inmem from_ts to_ts limit
      | None \<Rightarrow> search_all inmem from_ts to_ts limit)"

text \<open>
  \<open>search_transcripts(call_id, from_ts, to_ts, limit)\<close>: the import of the store and its
  query are guarded by one \<open>try\<close>.
\<close>

definition search_transcripts ::
  "world \<Rightarrow> (string \<times> TranscriptEntry list) list \<Rightarrow> string option \<Rightarrow> string option
     \<Rightarrow> string option \<Rightarrow> nat \<Rightarrow> (exn + pyval list) \<times> world" where
  "search_transcripts w inmem cid from_ts to_ts limit =
     (let (import_raised, w1) = external w in
      if import_raised then (search_fallback inmem cid from_ts to_ts limit, w1)
      else
        (case query_transcripts w1 cid from_ts to_ts limit of
           (Inr results, w2) \<Rightarrow> (Inr results, w2)
         | (Inl e, w2) \<Rightarrow> (search_fallback inmem cid from_ts to_ts limit, w2)))"

section \<open>Escalation bridge (app/core/media\_bridge.py)\<close>

text \<open>\<open>escalate_to_agent(call_id)\<close>.\<close>

definition escalate_to_agent :: "string \<Rightarrow> pydict" where
  "escalate_to_agent cid =
     [(''webrtc_url'', PStr (''/agent?call_id='' @ cid)),
      (''note'', PStr ''placeholder (implement real WebRTC bridge)'')]"

section \<open>Transcriber and synthesizer clients (app/core/asr\_client.py, app/core/tts\_client.py)\<close>

text \<open>
  \<open>ASRClient.transcribe(media_url)\<close>: stub mode, or no media reference, gives the canned
  transcript without any I/O. What the other modes do (Whisper, the cloud service, the
  sidecar text file) is a parameter that returns a transcript or raises.
\<close>

definition transcribe :: "string \<Rightarrow> (string \<Rightarrow> exn + string) \<Rightarrow> string option \<Rightarrow> exn + string" where
  "transcribe mode backend url =
     (case url of
        None \<Rightarrow> Inr ''stubbed transcript: hello I want my account balance''
      | Some u \<Rightarrow>
          if mode = ''stub'' \<or> u = []
          then Inr ''stubbed transcript: hello I want my account balance''
          else backend u)"

text \<open>
  \<open>TTSClient.synthesize(text, call_id)\<close>: no text or stub mode gives no artifact; the
  engine of the other modes is a parameter that returns a file path, nothing, or raises.
\<close>

definition synthesize ::
  "string \<Rightarrow> (pyval \<Rightarrow> string \<Rightarrow> exn + string option) \<Rightarrow> pyval \<Rightarrow> string \<Rightarrow> exn + string option"
  where
  "synthesize mode engine reply cid =
     (if \<not> truthy reply then Inr None
      else if mode = ''stub'' then Inr None
      else engine reply cid)"

section \<open>Call-start webhook (app/api/webhooks.py)\<close>

datatype http_error = HTTPException nat string

text \<open>
  \<open>inbound_call(payload, background_tasks, x_webhook_secret)\<close>, with the configured
  \<open>WEBHOOK_SECRET\<close> and whether the orchestrator could be imported as parameters. The
  payload has passed the \<open>CallWebhook\<close> schema. \<open>accept_call\<close> is the part after the
  secret check: the session record, \<open>set_session\<close> (it does not raise, so the handler
  around it, which would write to the module's own dictionary, is never entered), the
  scheduling of the pipeline run and the response.
\<close>

definition accept_call :: "bool \<Rightarrow> world \<Rightarrow> CallWebhook \<Rightarrow> (http_error + pydict) \<times> world" where
  "accept_call has_process_call w payload =
     (let (created, w1) = utcnow w;
          (updated, w2) = utcnow w1;
          session =
            [(''call_id'', PStr (call_id payload)),
             (''from'', opt_str (from_number payload)),
             (''to'', opt_str (to_number payload)),
             (''status'', PStr ''received''),
             (''created_at'', PStr created),
             (''last_update'', PStr updated),
             (''transcripts'', PList []),
             (''last_intent'', PNone)];
          w3 = set_session w2 (call_id payload) session;
          w4 = w3\<lparr>background_tasks := background_tasks w3 @
                 [if has_process_call then ProcessCall payload else StubProcessCall payload]\<rparr>
      in (Inr [(''status'', PStr ''accepted''), (''call_id'', PStr (call_id payload))], w4))"

definition inbound_call ::
  "string \<Rightarrow> bool \<Rightarrow> world \<Rightarrow> CallWebhook \<Rightarrow> string option \<Rightarrow> (http_error + pydict) \<times> world"
  where
  "inbound_call WEBHOOK_SECRET has_process_call w payload x_webhook_secret =
     (if WEBHOOK_SECRET \<noteq> [] \<and> x_webhook_secret \<noteq> None then
        (if x_webhook_secret \<noteq> Some WEBHOOK_SECRET
         then (Inl (HTTPException 403 ''Invalid webhook secret''), w)
         else accept_call has_process_call w payload)
      else accept_call has_process_call w payload)"

section \<open>Orchestrator (app/core/orchestrator.py)\<close>

text \<open>
  What the orchestrator finds around it: the clients created when the module was loaded
  (\<open>None\<close> when a client class could not be imported), each a function that returns its
  result or raises; the outcome of \<open>list_flows()\<close> and of reading the in-memory flow store
  of app/api/flows.py (its values, in insertion order); the escalation bridge (\<open>None\<close>
  when its import raises); the configured media base URL; and what the interpreter's
  \<open>str.lower()\<close> returns on text beyond ASCII.
\<close>

record env =
  asr :: "(string option \<Rightarrow> exn + string) option"
  llm :: "(string \<Rightarrow> exn + pydict) option"
  flow_engine :: "(Flow \<Rightarrow> pyval \<Rightarrow> string \<Rightarrow> exn + pydict) option"
  list_flows :: "exn + Flow list"
  FLOW_STORE :: "exn + Flow list"
  tts :: "(pyval \<Rightarrow> string \<Rightarrow> exn + string option) option"
  media_bridge :: "(string \<Rightarrow> exn + pydict) option"
  MEDIA_BASE_URL :: string
  unicode_lower :: "string \<Rightarrow> string"

text \<open>
  \<open>_save_transcript_entry(call_id, text, source)\<close>. The entry is stamped with the clock.
  The import of the transcript store and \<open>save_transcript\<close> are guarded by one \<open>try\<close>; its
  handler appends the entry (as \<open>save_transcript\<close> left it) through the session store,
  which does not raise, so the innermost handler is never entered.
\<close>

definition save_transcript_entry :: "world \<Rightarrow> string \<Rightarrow> pyval \<Rightarrow> string \<Rightarrow> world" where
  "save_transcript_entry w cid txt source =
     (let (now, w1) = utcnow w;
          entry = [(''call_id'', PStr cid), (''timestamp'', PStr now), (''text'', txt),
                   (''source'', PStr source)];
          (import_raised, w2) = external w1
      in if import_raised then append_transcript w2 cid (PDict entry)
         else
           (case save_transcript w2 entry of
              (Inr row, entry', w3) \<Rightarrow> w3
            | (Inl e, entry', w3) \<Rightarrow> append_transcript w3 cid (PDict entry')))"

text \<open>
  \<open>_update_session(call_id, patch)\<close>: \<open>update_session\<close> does not raise, so the handler
  that would write to the webhook module's dictionary is never entered.
\<close>

definition update_session_best_effort :: "world \<Rightarrow> string \<Rightarrow> pydict \<Rightarrow> world" where
  "update_session_best_effort w cid patch = snd (update_session w cid patch)"

text \<open>
  \<open>_maybe_get_flow_for_call()\<close>: the first stored flow; the in-memory store is consulted
  only when \<open>list_flows\<close> raises.
\<close>

definition maybe_get_flow_for_call :: "env \<Rightarrow> Flow option" where
  "maybe_get_flow_for_call e =
     (case list_flows e of
        Inr flows \<Rightarrow> (case flows of [] \<Rightarrow> None | first # rest \<Rightarrow> Some first)
      | Inl ex \<Rightarrow>
          (case FLOW_STORE e of
             Inr flows \<Rightarrow> (case flows of [] \<Rightarrow> None | first # rest \<Rightarrow> Some first)
           | Inl ex' \<Rightarrow> None))"

text \<open>
  The branch of \<open>process_call\<close> taken when there is no Responder client at all
  (\<open>_llm\<close> is \<open>None\<close>): a rule table of its own, written inline.
  \<^verbatim>\<open>text = (asr_text or "").lower()
  if "balance" in text: ...
  elif "agent" in text or "human" in text or "representative" in text: ...
  else: ...\<close>
\<close>

definition orchestrator_fallback :: "(string \<Rightarrow> string) \<Rightarrow> string \<Rightarrow> pydict" where
  "orchestrator_fallback ulower asr_text =
     (let text = lower ulower asr_text in
      if py_in ''balance'' text then
        [(''intent'', PStr ''account_balance''), (''reply'', PStr ''Your balance is $42 (fallback).'')]
      else if py_in ''agent'' text \<or> py_in ''human'' text \<or> py_in ''representative'' text then
        [(''intent'', PStr ''connect_agent''), (''reply'', PStr ''Connecting you to an agent.''),
         (''escalate'', PBool True)]
      else
        [(''intent'', PStr ''unknown''), (''reply'', PStr ''I didn't get that. Can you repeat?'')])"

text \<open>Step 1 of \<open>process_call\<close>: the transcript.\<close>

definition stage_transcribe :: "env \<Rightarrow> string option \<Rightarrow> string" where
  "stage_transcribe e url =
     (case asr e of
        Some client \<Rightarrow>
          (case client url of
             Inr asr_text \<Rightarrow> asr_text
           | Inl ex \<Rightarrow> ''stubbed transcript: could not run ASR'')
      | None \<Rightarrow> ''stubbed transcript (no ASR client available)'')"

text \<open>Step 2: the Responder's result.\<close>

definition stage_respond :: "env \<Rightarrow> string \<Rightarrow> pydict" where
  "stage_respond e asr_text =
     (case llm e of
        Some client \<Rightarrow>
          (case client asr_text of
             Inr llm_result \<Rightarrow> llm_result
           | Inl ex \<Rightarrow>
               [(''intent'', PStr ''unknown''),
                (''reply'', PStr ''Sorry, I couldn't process that right now.'')])
      | None \<Rightarrow> orchestrator_fallback (unicode_lower e) asr_text)"

text \<open>
  Step 3: the flow engine. The pair is \<open>(reply_text, escalate)\<close> after the step.
  \<^verbatim>\<open>reply_text = fe_result.get("reply", reply_text)
  escalate = fe_result.get("escalate", escalate)\<close>
\<close>

definition stage_flow :: "env \<Rightarrow> pyval \<Rightarrow> string \<Rightarrow> pyval \<Rightarrow> pyval \<Rightarrow> pyval \<times> pyval" where
  "stage_flow e intent asr_text reply_text escalate =
     (case flow_engine e of
        None \<Rightarrow> (reply_text, escalate)
      | Some engine \<Rightarrow>
          (case maybe_get_flow_for_call e of
             None \<Rightarrow> (reply_text, escalate)
           | Some flow \<Rightarrow>
               (case engine flow intent asr_text of
                  Inl ex \<Rightarrow> (reply_text, escalate)
                | Inr fe_result \<Rightarrow>
                    (dict_get_default fe_result ''reply'' reply_text,
                     dict_get_default fe_result ''escalate'' escalate))))"

text \<open>
  Step 4: synthesis. \<open>rstrip('/')\<close> removes the trailing slashes of the base URL.
  \<open>Path(media_path).name\<close> is the last component of the path (a POSIX path): the path is
  cut at its slashes, empty components and \<open>.\<close> components are dropped, and the name is
  the last component left, or the empty string when none is left.
\<close>

definition rstrip_slash :: "string \<Rightarrow> string" where
  "rstrip_slash s = rev (dropWhile (\<lambda>c. c = CHR ''/'') (rev s))"

fun split_slash :: "string \<Rightarrow> string list" where
  "split_slash [] = [[]]"
| "split_slash (c # cs) =
     (if c = CHR ''/'' then [] # split_slash cs
      else (case split_slash cs of
              [] \<Rightarrow> [[c]]
            | x # xs \<Rightarrow> (c # x) # xs))"

definition path_name :: "string \<Rightarrow> string" where
  "path_name p =
     (case filter (\<lambda>part. part \<noteq> [] \<and> part \<noteq> ''.'') (split_slash p) of
        [] \<Rightarrow> []
      | parts \<Rightarrow> last parts)"

definition stage_synthesize :: "env \<Rightarrow> pyval \<Rightarrow> string \<Rightarrow> pyval" where
  "stage_synthesize e reply_text cid =
     (case tts e of
        None \<Rightarrow> PNone
      | Some client \<Rightarrow>
          (case client reply_text cid of
             Inl ex \<Rightarrow> PNone
           | Inr media_path \<Rightarrow>
               (case media_path of
                  None \<Rightarrow> PNone
                | Some p \<Rightarrow>
                    if p \<noteq> []
                    then PStr (rstrip_slash (MEDIA_BASE_URL e) @ ''/'' @ path_name p)
                    else PNone)))"

text \<open>Step 5: the escalation payload.\<close>

definition stage_escalate :: "env \<Rightarrow> pyval \<Rightarrow> string \<Rightarrow> pyval" where
  "stage_escalate e escalate cid =
     (if truthy escalate then
        (case media_bridge e of
           Some bridge \<Rightarrow>
             (case bridge cid of
                Inr agent_payload \<Rightarrow> PDict agent_payload
              | Inl ex \<Rightarrow> PDict [(''note'', PStr ''escalation_requested_but_no_bridge'')])
         | None \<Rightarrow> PDict [(''note'', PStr ''escalation_requested_but_no_bridge'')])
      else PNone)"

text \<open>
  \<open>process_call(payload)\<close>. The payload is the dictionary of a validated \<open>CallWebhook\<close>.
  Every call that can raise sits in a \<open>try\<close> whose handler supplies a value, so the
  function has a summary for every input.
\<close>

definition process_call :: "env \<Rightarrow> world \<Rightarrow> CallWebhook \<Rightarrow> pydict \<times> world" where
  "process_call e w payload =
     (let cid = call_id payload;
          asr_text = stage_transcribe e (media_url payload);
          w1 = save_transcript_entry w cid (PStr asr_text) ''asr'';
          llm_result = stage_respond e asr_text;
          intent = dict_get llm_result ''intent'';
          reply0 = dict_get_default llm_result ''reply'' (PStr []);
          w2 = save_transcript_entry w1 cid reply0 ''llm'';
          escalate0 = PBool (truthy (dict_get_default llm_result ''escalate'' (PBool False)));
          (reply_text, escalate) = stage_flow e intent asr_text reply0 escalate0;
          media_out = stage_synthesize e reply_text cid;
          agent_payload = stage_escalate e escalate cid;
          (now, w3) = utcnow w2;
          w4 = update_session_best_effort w3 cid
                 [(''status'', PStr (if \<not> truthy escalate then ''completed'' else ''escalated'')),
                  (''last_intent'', intent),
                  (''last_reply'', reply_text),
                  (''media_out'', media_out),
                  (''agent'', agent_payload),
                  (''last_update'', PStr now)]
      in ([(''call_id'', PStr cid), (''intent'', intent), (''reply'', reply_text),
           (''media_out'', media_out), (''escalated'', escalate), (''agent'', agent_payload)],
          w4))"

section \<open>Example states\<close>

text \<open>
  A clock that advances by a second per reading (and stands still after nine), a state
  without Redis and with empty stores, and the session that the webhook writes when a call
  starts.
\<close>

definition demo_clock :: "nat \<Rightarrow> string" where
  "demo_clock n = ''2024-01-01T00:00:0'' @ [char_of (48 + min n 9)]"

definition idle_world :: world where
  "idle_world = \<lparr>clock = demo_clock, ticks = 0, faults = [], redis_client = False,
     redis_sessions = Map.empty, redis_transcripts = Map.empty,
     INMEM_SESSIONS = Map.empty, INMEM_TRANSCRIPTS = Map.empty,
     transcripts_table = [], background_tasks = []\<rparr>"

definition received_session :: pydict where
  "received_session =
     [(''call_id'', PStr ''c1''), (''from'', PStr ''+15550001''), (''to'', PNone),
      (''status'', PStr ''received''), (''created_at'', PStr ''2024-01-01T00:00:00''),
      (''last_update'', PStr ''2024-01-01T00:00:00''), (''transcripts'', PList []),
      (''last_intent'', PNone)]"

definition received_world :: world where
  "received_world = idle_world\<lparr>INMEM_SESSIONS := [''c1'' \<mapsto> received_session]\<rparr>"

definition answered_patch :: pydict where
  "answered_patch = [(''status'', PStr ''answered''), (''last_reply'', PStr ''Hello!'')]"

text \<open>A call-start payload.\<close>

definition demo_call :: CallWebhook where
  "demo_call = \<lparr>call_id = ''c1'', from_number = Some ''+15550001'', to_number = None,
     media_url = None, direction = Some ''inbound''\<rparr>"

text \<open>Rows of the transcripts table around one day.\<close>

definition demo_row :: "nat \<Rightarrow> string \<Rightarrow> string \<Rightarrow> transcript_row" where
  "demo_row n cid ts = \<lparr>row_id = n, row_call_id = cid, row_timestamp = Some ts,
     row_text = ''hello'', row_source = Some ''asr'', row_created_at = Some ts\<rparr>"

definition demo_rows :: "transcript_row list" where
  "demo_rows =
     [demo_row 1 ''c1'' ''2023-12-31T23:59:59.999999'',
      demo_row 2 ''c1'' ''2024-01-01T00:00:00'',
      demo_row 3 ''c2'' ''2024-01-01T12:00:00.000001'',
      demo_row 4 ''c1'' ''2024-01-01T23:59:59'',
      demo_row 5 ''c1'' ''2024-01-02T00:00:00'']"

text \<open>
  The repository's own components under its default settings (\<open>ASR_MODE=stub\<close>,
  \<open>LLM_MODE=openai\<close> with a backend whose request fails, \<open>TTS_MODE=stub\<close>), with the
  given flows in the flow store. The texts of the examples are ASCII, for which
  \<open>str.lower()\<close> does not consult the Unicode tables; \<open>ascii_only\<close> stands in for them.
\<close>

definition ascii_only :: "string \<Rightarrow> string" where
  "ascii_only s = s"

definition default_env :: "Flow list \<Rightarrow> env" where
  "default_env flows =
     \<lparr>asr = Some (transcribe ''stub'' (\<lambda>u. Inl Exception)),
      llm = Some (\<lambda>t. Inr (generate_response ascii_only
                               \<lparr>llm_mode = ''openai'', has_openai = True\<rparr>
                               (\<lambda>t. Inl Exception) t)),
      flow_engine = Some (\<lambda>flow intent t. Inr (run_flow flow intent t)),
      list_flows = Inr flows,
      FLOW_STORE = Inr [],
      tts = Some (synthesize ''stub'' (\<lambda>reply cid. Inl Exception)),
      media_bridge = Some (\<lambda>cid. Inr (escalate_to_agent cid)),
      MEDIA_BASE_URL = ''http://localhost:8000/media'',
      unicode_lower = ascii_only\<rparr>"

text \<open>An environment in which every client is present and raises, and the bridge is missing.\<close>

definition failing_env :: env where
  "failing_env =
     \<lparr>asr = Some (\<lambda>u. Inl Exception),
      llm = Some (\<lambda>t. Inl Exception),
      flow_engine = Some (\<lambda>flow intent t. Inl Exception),
      list_flows = Inl Exception,
      FLOW_STORE = Inl Exception,
      tts = Some (\<lambda>reply cid. Inl Exception),
      media_bridge = None,
      MEDIA_BASE_URL = ''http://localhost:8000/media'',
      unicode_lower = ascii_only\<rparr>"

text \<open>
  A flow with a single action node for \<open>connect_agent\<close> and no start prompt, and a call whose
  recording is transcribed (local mode) to a request for an agent.
\<close>

definition support_flow :: Flow where
  "support_flow = \<lparr>flow_id = ''support-v1'', flow_name = None, flow_description = None,
     nodes = [\<lparr>node_id = ''support'', node_type = ''action'', node_text = None,
        node_intent = Some ''connect_agent'', node_reply = Some ''Connecting to agent'',
        node_escalate = Some True\<rparr>],
     updated_at = None\<rparr>"

definition agent_env :: env where
  "agent_env = (default_env [])\<lparr>asr := Some (transcribe ''local'' (\<lambda>u. Inr ''I need an agent''))\<rparr>"

definition recorded_call :: CallWebhook where
  "recorded_call = \<lparr>call_id = ''c1'', from_number = Some ''+15550001'', to_number = None,
     media_url = Some ''file://demo/recordings/inbound.wav'', direction = Some ''inbound''\<rparr>"

text \<open>
  The default components with a flow engine and a Synthesizer that raise, and the
  agent-seeking call's environment with a bridge that raises.
\<close>

definition flaky_env :: env where
  "flaky_env = (default_env [support_flow])\<lparr>flow_engine := Some (\<lambda>flow intent t. Inl Exception),
     tts := Some (\<lambda>reply cid. Inl Exception)\<rparr>"

definition unbridged_env :: env where
  "unbridged_env = agent_env\<lparr>media_bridge := Some (\<lambda>cid. Inl Exception)\<rparr>"

text \<open>
  An environment without any client, engine or bridge, and a state in which the next
  external operations all raise.
\<close>

definition bare_env :: env where
  "bare_env =
     \<lparr>asr = None, llm = None, flow_engine = None,
      list_flows = Inl Exception, FLOW_STORE = Inl Exception,
      tts = None, media_bridge = None,
      MEDIA_BASE_URL = ''http://localhost:8000/media'',
      unicode_lower = ascii_only\<rparr>"

definition failing_world :: world where
  "failing_world = received_world\<lparr>faults := replicate 8 True\<rparr>"

section \<open>Flow resolution\<close>

text \<open>
  The flow of the module's docstring (a start prompt and two action nodes), and a flow whose
  only node carries an empty intent key.
\<close>

definition faq_flow :: Flow where
  "faq_flow = \<lparr>flow_id = ''faq-v1'', flow_name = None, flow_description = None,
     nodes = [
       \<lparr>node_id = ''start'', node_type = ''ask'', node_text = Some ''How can I help?'',
        node_intent = None, node_reply = None, node_escalate = Some False\<rparr>,
       \<lparr>node_id = ''account'', node_type = ''action'', node_text = None,
        node_intent = Some ''account_balance'', node_reply = Some ''Your balance is $42'',
        node_escalate = Some False\<rparr>,
       \<lparr>node_id = ''support'', node_type = ''action'', node_text = None,
        node_intent = Some ''connect_agent'', node_reply = Some ''Connecting to agent'',
        node_escalate = Some True\<rparr>],
     updated_at = None\<rparr>"

definition empty_intent_flow :: Flow where
  "empty_intent_flow = \<lparr>flow_id = ''f'', flow_name = None, flow_description = None,
     nodes = [\<lparr>node_id = ''n1'', node_type = ''action'', node_text = None,
        node_intent = Some '''', node_reply = Some ''R'', node_escalate = Some True\<rparr>],
     updated_at = None\<rparr>"

lemma intent_loop_first:
  "i < length ns \<Longrightarrow> truthy intent \<Longrightarrow> opt_str (node_intent (ns ! i)) = intent \<Longrightarrow>
   \<forall>j<i. opt_str (node_intent (ns ! j)) \<noteq> intent \<Longrightarrow>
   intent_loop ns intent =
     Some [(''reply'', opt_str (node_reply (ns ! i))),
           (''escalate'', PBool (escalate_flag (node_escalate (ns ! i))))]"
proof (induction ns arbitrary: i)
  case Nil
  then show ?case by simp
next
  case (Cons n ns)
  show ?case
  proof (cases i)
    case 0
    with Cons.prems show ?thesis by simp
  next
    case (Suc k)
    with Cons.prems have "opt_str (node_intent n) \<noteq> intent" by auto
    moreover have "intent_loop ns intent =
      Some [(''reply'', opt_str (node_reply (ns ! k))),
            (''escalate'', PBool (escalate_flag (node_escalate (ns ! k))))]"
      using Cons.prems Suc by (intro Cons.IH) auto
    ultimately show ?thesis using Suc by simp
  qed
qed

lemma intent_loop_none:
  "\<forall>n\<in>set ns. opt_str (node_intent n) \<noteq> intent \<Longrightarrow> intent_loop ns intent = None"
  by (induction ns) auto

lemma start_loop_first:
  "k < length ns \<Longrightarrow> is_start_prompt (ns ! k) \<Longrightarrow> \<forall>j<k. \<not> is_start_prompt (ns ! j) \<Longrightarrow>
   start_loop ns = Some [(''reply'', opt_str (node_text (ns ! k))), (''escalate'', PBool False)]"
proof (induction ns arbitrary: k)
  case Nil
  then show ?case by simp
next
  case (Cons n ns)
  show ?case
  proof (cases k)
    case 0
    with Cons.prems show ?thesis by simp
  next
    case (Suc m)
    with Cons.prems have "\<not> is_start_prompt n" by auto
    moreover have "start_loop ns =
      Some [(''reply'', opt_str (node_text (ns ! m))), (''escalate'', PBool False)]"
      using Cons.prems Suc by (intro Cons.IH) auto
    ultimately show ?thesis using Suc by simp
  qed
qed

lemma start_loop_none:
  "\<forall>n\<in>set ns. \<not> is_start_prompt n \<Longrightarrow> start_loop ns = None"
  by (induction ns) auto


text \<open>
  Claim C3, as the code has it. For a non-empty intent, \<open>run_flow\<close> returns the reply and
  the escalate flag of the first node, in stored order, whose intent key equals the intent.
  When the intent is empty or absent, or no node's key equals it, the result is the prompt
  text of the first node with identifier \<open>start\<close> and type \<open>ask\<close> or \<open>say\<close>, with
  escalate false; when there is no such node either, the reply is \<open>None\<close> and escalate
  is false.
\<close>

theorem run_flow_resolution:
  "(truthy intent \<and> i < length (nodes flow) \<and>
      opt_str (node_intent (nodes flow ! i)) = intent \<and>
      (\<forall>j<i. opt_str (node_intent (nodes flow ! j)) \<noteq> intent)
     \<longrightarrow> run_flow flow intent text =
          [(''reply'', opt_str (node_reply (nodes flow ! i))),
           (''escalate'', PBool (escalate_flag (node_escalate (nodes flow ! i))))])
   \<and> ((\<not> truthy intent \<or> (\<forall>n\<in>set (nodes flow). opt_str (node_intent n) \<noteq> intent)) \<and>
      k < length (nodes flow) \<and> is_start_prompt (nodes flow ! k) \<and>
      (\<forall>j<k. \<not> is_start_prompt (nodes flow ! j))
     \<longrightarrow> run_flow flow intent text =
          [(''reply'', opt_str (node_text (nodes flow ! k))), (''escalate'', PBool False)])
   \<and> ((\<not> truthy intent \<or> (\<forall>n\<in>set (nodes flow). opt_str (node_intent n) \<noteq> intent)) \<and>
      (\<forall>n\<in>set (nodes flow). \<not> is_start_prompt n)
     \<longrightarrow> run_flow flow intent text = [(''reply'', PNone), (''escalate'', PBool False)])"
proof (intro conjI impI)
  assume "truthy intent \<and> i < length (nodes flow) \<and>
      opt_str (node_intent (nodes flow ! i)) = intent \<and>
      (\<forall>j<i. opt_str (node_intent (nodes flow ! j)) \<noteq> intent)"
  then have "truthy intent" and "intent_loop (nodes flow) intent =
      Some [(''reply'', opt_str (node_reply (nodes flow ! i))),
            (''escalate'', PBool (escalate_flag (node_escalate (nodes flow ! i))))]"
    by (simp_all add: intent_loop_first)
  then show "run_flow flow intent text =
          [(''reply'', opt_str (node_reply (nodes flow ! i))),
           (''escalate'', PBool (escalate_flag (node_escalate (nodes flow ! i))))]"
    by (simp add: run_flow_def)
next
  assume a: "(\<not> truthy intent \<or> (\<forall>n\<in>set (nodes flow). opt_str (node_intent n) \<noteq> intent)) \<and>
      k < length (nodes flow) \<and> is_start_prompt (nodes flow ! k) \<and>
      (\<forall>j<k. \<not> is_start_prompt (nodes flow ! j))"
  then have "(if truthy intent then intent_loop (nodes flow) intent else None) = None"
    by (auto simp: intent_loop_none)
  moreover from a have "start_loop (nodes flow) =
      Some [(''reply'', opt_str (node_text (nodes flow ! k))), (''escalate'', PBool False)]"
    by (simp add: start_loop_first)
  ultimately show "run_flow flow intent text =
          [(''reply'', opt_str (node_text (nodes flow ! k))), (''escalate'', PBool False)]"
    by (simp add: run_flow_def)
next
  assume a: "(\<not> truthy intent \<or> (\<forall>n\<in>set (nodes flow). opt_str (node_intent n) \<noteq> intent)) \<and>
      (\<forall>n\<in>set (nodes flow). \<not> is_start_prompt n)"
  then have "(if truthy intent then intent_loop (nodes flow) intent else None) = None"
    by (auto simp: intent_loop_none)
  moreover from a have "start_loop (nodes flow) = None"
    by (simp add: start_loop_none)
  ultimately show "run_flow flow intent text = [(''reply'', PNone), (''escalate'', PBool False)]"
    by (simp add: run_flow_def)
qed

text \<open>
  The three cases on the docstring's flow: a matching node, the start prompt, and neither.
\<close>

theorem run_flow_resolution_witness:
  "run_flow faq_flow (PStr ''account_balance'') ''my balance'' =
     [(''reply'', PStr ''Your balance is $42''), (''escalate'', PBool False)]
   \<and> run_flow faq_flow (PStr ''unknown'') ''hm'' =
     [(''reply'', PStr ''How can I help?''), (''escalate'', PBool False)]
   \<and> run_flow empty_intent_flow (PStr ''unknown'') ''hm'' =
     [(''reply'', PNone), (''escalate'', PBool False)]"
proof -
  have a: "run_flow faq_flow (PStr ''account_balance'') ''my balance'' =
     [(''reply'', PStr ''Your balance is $42''), (''escalate'', PBool False)]"
    using run_flow_resolution [of "PStr ''account_balance''" 1 faq_flow "''my balance''" 0]
    by (simp add: faq_flow_def)
  have b: "run_flow faq_flow (PStr ''unknown'') ''hm'' =
     [(''reply'', PStr ''How can I help?''), (''escalate'', PBool False)]"
    using run_flow_resolution [of "PStr ''unknown''" 0 faq_flow "''hm''" 0]
    by (simp add: faq_flow_def is_start_prompt_def)
  have c: "run_flow empty_intent_flow (PStr ''unknown'') ''hm'' =
     [(''reply'', PNone), (''escalate'', PBool False)]"
    using run_flow_resolution [of "PStr ''unknown''" 0 empty_intent_flow "''hm''" 0]
    by (simp add: empty_intent_flow_def is_start_prompt_def)
  from a b c show ?thesis by simp
qed

text \<open>
  The guard \<open>if intent:\<close> (and \<open>n.get("intent") and ...\<close>) keeps an empty intent from
  matching: here the first node's intent key equals the given (empty) intent, and its reply
  and flag are not what \<open>run_flow\<close> returns.
\<close>

theorem run_flow_empty_intent_counterexample:
  "opt_str (node_intent (nodes empty_intent_flow ! 0)) = PStr ''''
   \<and> opt_str (node_reply (nodes empty_intent_flow ! 0)) = PStr ''R''
   \<and> escalate_flag (node_escalate (nodes empty_intent_flow ! 0)) = True
   \<and> run_flow empty_intent_flow (PStr '''') ''hello'' =
       [(''reply'', PNone), (''escalate'', PBool False)]"
  by (simp add: empty_intent_flow_def run_flow_def)

section \<open>Keyword fallback tables\<close>

text \<open>
  The rule table as the specification words it: an ordered list of rules, each a set of
  keywords and the intent label it yields; the first rule with a keyword that occurs in the
  (lowered) text wins, and a default label is used when none does.
\<close>

fun first_match :: "(string list \<times> string) list \<Rightarrow> string \<Rightarrow> string \<Rightarrow> string" where
  "first_match [] dflt t = dflt"
| "first_match ((kws, label) # rules) dflt t =
     (if \<exists>kw\<in>set kws. sublist kw t then label else first_match rules dflt t)"

definition keyword_rule_table :: "(string list \<times> string) list" where
  "keyword_rule_table =
     [([''balance'', ''account''], ''account_balance''),
      ([''payment'', ''bill''], ''payments''),
      ([''agent'', ''human'', ''representative''], ''connect_agent''),
      ([''hello'', ''hi''], ''greeting'')]"

text \<open>The shorter table that the orchestrator's inline branch implements.\<close>

definition orchestrator_rule_table :: "(string list \<times> string) list" where
  "orchestrator_rule_table =
     [([''balance''], ''account_balance''),
      ([''agent'', ''human'', ''representative''], ''connect_agent'')]"

lemma rule_based_intent:
  "dict_get (rule_based_response u text) ''intent'' =
     PStr (first_match keyword_rule_table ''unknown'' (lower u text))"
  by (simp add: rule_based_response_def Let_def keyword_rule_table_def py_in_def dict_get_def)

lemma rule_based_escalate:
  "truthy (dict_get (rule_based_response u text) ''escalate'') \<longleftrightarrow>
     first_match keyword_rule_table ''unknown'' (lower u text) = ''connect_agent''"
  by (simp add: rule_based_response_def Let_def keyword_rule_table_def py_in_def dict_get_def)

lemma rule_based_unknown_reply:
  "first_match keyword_rule_table ''unknown'' (lower u text) = ''unknown'' \<Longrightarrow>
   dict_get (rule_based_response u text) ''reply'' =
     PStr ''Sorry, I didn't understand that. Could you repeat?''"
  by (simp add: rule_based_response_def Let_def keyword_rule_table_def py_in_def dict_get_def
      split: if_splits)

lemma orchestrator_fallback_intent:
  "dict_get (orchestrator_fallback u text) ''intent'' =
     PStr (first_match orchestrator_rule_table ''unknown'' (lower u text))"
  by (simp add: orchestrator_fallback_def Let_def orchestrator_rule_table_def py_in_def
      dict_get_def)

lemma orchestrator_fallback_escalate:
  "truthy (dict_get (orchestrator_fallback u text) ''escalate'') \<longleftrightarrow>
     first_match orchestrator_rule_table ''unknown'' (lower u text) = ''connect_agent''"
  by (simp add: orchestrator_fallback_def Let_def orchestrator_rule_table_def py_in_def
      dict_get_def)

lemma orchestrator_fallback_unknown_reply:
  "first_match orchestrator_rule_table ''unknown'' (lower u text) = ''unknown'' \<Longrightarrow>
   dict_get (orchestrator_fallback u text) ''reply'' = PStr ''I didn't get that. Can you repeat?''"
  by (simp add: orchestrator_fallback_def Let_def orchestrator_rule_table_def py_in_def
      dict_get_def split: if_splits)

text \<open>
  On ASCII text the lowered text does not depend on the Unicode tables, and a keyword
  occurs in it exactly when some segment of the text spells it up to the case of its
  letters.
\<close>

lemma is_ascii_append [simp]: "is_ascii (xs @ ys) \<longleftrightarrow> is_ascii xs \<and> is_ascii ys"
  by (simp add: is_ascii_def)

lemma lower_ascii: "is_ascii s \<Longrightarrow> lower u s = map lower_char s"
  by (simp add: lower_def)

lemma py_in_lower_chars:
  "py_in kw (map lower_char s) \<longleftrightarrow> (\<exists>ps seg ss. s = ps @ seg @ ss \<and> map lower_char seg = kw)"
proof
  assume "py_in kw (map lower_char s)"
  then obtain ps' ss' where "map lower_char s = ps' @ (kw @ ss')"
    by (auto simp: py_in_def sublist_def)
  then have "\<exists>ps rest. s = ps @ rest \<and> ps' = map lower_char ps \<and> kw @ ss' = map lower_char rest"
    by (rule map_eq_append_conv [THEN iffD1])
  then obtain ps rest where t: "s = ps @ rest" and r: "map lower_char rest = kw @ ss'"
    by metis
  from r have "\<exists>seg ss. rest = seg @ ss \<and> kw = map lower_char seg \<and> ss' = map lower_char ss"
    by (rule map_eq_append_conv [THEN iffD1])
  then obtain seg ss where "rest = seg @ ss" and "map lower_char seg = kw"
    by metis
  with t show "\<exists>ps seg ss. s = ps @ seg @ ss \<and> map lower_char seg = kw"
    by auto
next
  assume "\<exists>ps seg ss. s = ps @ seg @ ss \<and> map lower_char seg = kw"
  then show "py_in kw (map lower_char s)"
    by (auto simp: py_in_def)
qed

lemma py_in_lower:
  assumes "is_ascii text"
  shows "py_in kw (lower u text) \<longleftrightarrow> (\<exists>ps seg ss. text = ps @ seg @ ss \<and> lower u seg = kw)"
proof -
  have "(\<exists>ps seg ss. text = ps @ seg @ ss \<and> map lower_char seg = kw)
      \<longleftrightarrow> (\<exists>ps seg ss. text = ps @ seg @ ss \<and> lower u seg = kw)"
    using assms by (metis is_ascii_append lower_ascii)
  with assms show ?thesis
    by (simp add: lower_ascii py_in_lower_chars)
qed

text \<open>
  Claim C4, as the code has it. The Responder client's fallback \<open>_rule_based_response\<close>
  implements the four-rule table of the specification, first match first, on the lowered
  text: its intent is the table's label, it escalates exactly for \<open>connect_agent\<close>, and
  the default is \<open>unknown\<close> with the repeat-please reply. The branch of \<open>process_call\<close> taken
  when no Responder client exists implements the shorter table (\<open>balance\<close>; then \<open>agent\<close>,
  \<open>human\<close>, \<open>representative\<close>), with a repeat-please reply of its own. The lowered text
  is what \<open>str.lower()\<close> returns: on ASCII text each letter in its lower case, so that a
  keyword matches when some segment of the text spells it in any letter case; on other
  text whatever the interpreter's Unicode tables \<open>u\<close> give.
\<close>

theorem keyword_fallback_tables:
  "dict_get (rule_based_response u text) ''intent'' =
     PStr (first_match keyword_rule_table ''unknown'' (lower u text))
   \<and> (truthy (dict_get (rule_based_response u text) ''escalate'') \<longleftrightarrow>
        first_match keyword_rule_table ''unknown'' (lower u text) = ''connect_agent'')
   \<and> (first_match keyword_rule_table ''unknown'' (lower u text) = ''unknown'' \<longrightarrow>
        dict_get (rule_based_response u text) ''reply'' =
          PStr ''Sorry, I didn't understand that. Could you repeat?'')
   \<and> dict_get (orchestrator_fallback u text) ''intent'' =
        PStr (first_match orchestrator_rule_table ''unknown'' (lower u text))
   \<and> (truthy (dict_get (orchestrator_fallback u text) ''escalate'') \<longleftrightarrow>
        first_match orchestrator_rule_table ''unknown'' (lower u text) = ''connect_agent'')
   \<and> (first_match orchestrator_rule_table ''unknown'' (lower u text) = ''unknown'' \<longrightarrow>
        dict_get (orchestrator_fallback u text) ''reply'' =
          PStr ''I didn't get that. Can you repeat?'')
   \<and> (is_ascii text \<longrightarrow> lower u text = map lower_char text
        \<and> (py_in kw (lower u text) \<longleftrightarrow>
             (\<exists>ps seg ss. text = ps @ seg @ ss \<and> lower u seg = kw)))"
proof -
  have "dict_get (rule_based_response u text) ''intent'' =
     PStr (first_match keyword_rule_table ''unknown'' (lower u text))"
    by (rule rule_based_intent)
  moreover have "truthy (dict_get (rule_based_response u text) ''escalate'') \<longleftrightarrow>
        first_match keyword_rule_table ''unknown'' (lower u text) = ''connect_agent''"
    by (rule rule_based_escalate)
  moreover have "dict_get (orchestrator_fallback u text) ''intent'' =
        PStr (first_match orchestrator_rule_table ''unknown'' (lower u text))"
    by (rule orchestrator_fallback_intent)
  moreover have "truthy (dict_get (orchestrator_fallback u text) ''escalate'') \<longleftrightarrow>
        first_match orchestrator_rule_table ''unknown'' (lower u text) = ''connect_agent''"
    by (rule orchestrator_fallback_escalate)
  moreover have "is_ascii text \<longrightarrow> lower u text = map lower_char text
        \<and> (py_in kw (lower u text) \<longleftrightarrow>
             (\<exists>ps seg ss. text = ps @ seg @ ss \<and> lower u seg = kw))"
    using lower_ascii [of "text" u] py_in_lower [of "text" kw u] by blast
  moreover have "first_match keyword_rule_table ''unknown'' (lower u text) = ''unknown'' \<longrightarrow>
        dict_get (rule_based_response u text) ''reply'' =
          PStr ''Sorry, I didn't understand that. Could you repeat?''"
    using rule_based_unknown_reply [of u "text"] by blast
  moreover have "first_match orchestrator_rule_table ''unknown'' (lower u text) = ''unknown'' \<longrightarrow>
        dict_get (orchestrator_fallback u text) ''reply'' =
          PStr ''I didn't get that. Can you repeat?''"
    using orchestrator_fallback_unknown_reply [of u "text"] by blast
  ultimately show ?thesis by blast
qed

text \<open>
  The tables at work: letter case is ignored, the earlier rule wins when two rules match,
  and a text without keywords gets the default.
\<close>

theorem keyword_fallback_tables_witness:
  "dict_get (rule_based_response ascii_only ''I need an AGENT for my Account'') ''intent'' =
     PStr ''account_balance''
   \<and> dict_get (rule_based_response ascii_only ''Speak to a Human'') ''intent'' =
        PStr ''connect_agent''
   \<and> truthy (dict_get (rule_based_response ascii_only ''Speak to a Human'') ''escalate'')
   \<and> dict_get (rule_based_response ascii_only ''xyz'') ''reply'' =
        PStr ''Sorry, I didn't understand that. Could you repeat?''
   \<and> dict_get (orchestrator_fallback ascii_only ''xyz'') ''reply'' =
        PStr ''I didn't get that. Can you repeat?''
   \<and> dict_get (orchestrator_fallback ascii_only ''Speak to a Human'') ''intent'' =
        PStr ''connect_agent''
   \<and> lower ascii_only ''Speak to a Human'' = ''speak to a human''
   \<and> (\<exists>ps seg ss. ''Speak to a Human'' = ps @ seg @ ss \<and> lower ascii_only seg = ''human'')"
proof -
  have e1: "first_match keyword_rule_table ''unknown''
      (lower ascii_only ''I need an AGENT for my Account'') = ''account_balance''"
    by code_simp
  have e2: "first_match keyword_rule_table ''unknown'' (lower ascii_only ''Speak to a Human'') =
      ''connect_agent''"
    by code_simp
  have e3: "first_match keyword_rule_table ''unknown'' (lower ascii_only ''xyz'') = ''unknown''"
    by code_simp
  have e4: "first_match orchestrator_rule_table ''unknown'' (lower ascii_only ''xyz'') = ''unknown''"
    by code_simp
  have e5: "first_match orchestrator_rule_table ''unknown''
      (lower ascii_only ''Speak to a Human'') = ''connect_agent''"
    by code_simp
  have a: "is_ascii ''Speak to a Human''"
    by code_simp
  have l: "map lower_char ''Speak to a Human'' = ''speak to a human''"
    by code_simp
  have i: "py_in ''human'' ''speak to a human''"
    by code_simp
  note T1 = keyword_fallback_tables [of ascii_only "''I need an AGENT for my Account''" "''agent''"]
  note T2 = keyword_fallback_tables [of ascii_only "''Speak to a Human''" "''human''"]
  note T3 = keyword_fallback_tables [of ascii_only "''xyz''" "''hi''"]
  from T2 a l have lw: "lower ascii_only ''Speak to a Human'' = ''speak to a human''"
    by simp
  from T2 a have "py_in ''human'' (lower ascii_only ''Speak to a Human'') \<longleftrightarrow>
      (\<exists>ps seg ss. ''Speak to a Human'' = ps @ seg @ ss \<and> lower ascii_only seg = ''human'')"
    by blast
  with i lw have seg: "\<exists>ps seg ss. ''Speak to a Human'' = ps @ seg @ ss
      \<and> lower ascii_only seg = ''human''"
    by simp
  from T1 have "dict_get (rule_based_response ascii_only ''I need an AGENT for my Account'')
      ''intent'' = PStr ''account_balance''"
    by (simp only: e1)
  moreover from T2 have "dict_get (rule_based_response ascii_only ''Speak to a Human'') ''intent'' =
        PStr ''connect_agent''"
    "truthy (dict_get (rule_based_response ascii_only ''Speak to a Human'') ''escalate'')"
    "dict_get (orchestrator_fallback ascii_only ''Speak to a Human'') ''intent'' =
        PStr ''connect_agent''"
    by (simp_all only: e2 e5 simp_thms)
  moreover from T3 have "dict_get (rule_based_response ascii_only ''xyz'') ''reply'' =
        PStr ''Sorry, I didn't understand that. Could you repeat?''"
    "dict_get (orchestrator_fallback ascii_only ''xyz'') ''reply'' =
        PStr ''I didn't get that. Can you repeat?''"
    by (simp_all only: e3 e4 simp_thms)
  ultimately show ?thesis
    using lw seg by blast
qed

text \<open>
  The orchestrator's inline branch has no payment rule: a text with ``bill'' in it, which
  the four-rule table labels \<open>payments\<close>, is labelled \<open>unknown\<close> there.
\<close>

theorem orchestrator_fallback_counterexample:
  "py_in ''bill'' (lower ascii_only ''I want to pay my bill'')
   \<and> first_match keyword_rule_table ''unknown'' (lower ascii_only ''I want to pay my bill'')
       = ''payments''
   \<and> dict_get (orchestrator_fallback ascii_only ''I want to pay my bill'') ''intent''
       = PStr ''unknown''"
  by code_simp

section \<open>Session store: patching\<close>

lemma map_of_dict_update_other:
  "k \<notin> fst ` set p \<Longrightarrow> map_of (dict_update d p) k = map_of d k"
  unfolding dict_update_def
  by (induction p arbitrary: d) (auto simp: update_conv')

lemma map_of_dict_update_in:
  "distinct (map fst p) \<Longrightarrow> (k, v) \<in> set p \<Longrightarrow> map_of (dict_update d p) k = Some v"
  unfolding dict_update_def
proof (induction p arbitrary: d)
  case Nil
  then show ?case by simp
next
  case (Cons a p)
  obtain k' v' where a: "a = (k', v')" by (cases a)
  show ?case
  proof (cases "(k, v) = a")
    case True
    with Cons.prems a have "k \<notin> fst ` set p" by auto
    then have "map_of (dict_update (AList.update k v d) p) k = map_of (AList.update k v d) k"
      by (rule map_of_dict_update_other)
    with True a show ?thesis by (simp add: dict_update_def update_conv')
  next
    case False
    with Cons.prems have "(k, v) \<in> set p" "distinct (map fst p)" by auto
    then show ?thesis using Cons.IH a by simp
  qed
qed

lemma map_of_dict_update_empty:
  "distinct (map fst p) \<Longrightarrow> map_of (dict_update [] p) = map_of p"
proof (rule ext)
  fix k
  assume d: "distinct (map fst p)"
  show "map_of (dict_update [] p) k = map_of p k"
  proof (cases "k \<in> fst ` set p")
    case True
    then obtain v where kv: "(k, v) \<in> set p" by auto
    with d have "map_of p k = Some v" by simp
    with d kv show ?thesis by (simp add: map_of_dict_update_in)
  next
    case False
    then have "map_of p k = None" by (simp add: map_of_eq_None_iff)
    with False show ?thesis by (simp add: map_of_dict_update_other)
  qed
qed

text \<open>The session that a lookup finds in a state, \<open>{}\<close> when there is none.\<close>

definition prior_session :: "world \<Rightarrow> string \<Rightarrow> pydict" where
  "prior_session w cid = (case fst (get_session w cid) of None \<Rightarrow> [] | Some s \<Rightarrow> s)"

lemma update_session_result:
  "fst (update_session w cid patch) = dict_update (prior_session w cid) patch"
  by (auto simp: update_session_def get_session_def prior_session_def Let_def
      split: prod.splits option.splits)

lemma update_session_stored:
  "update_session w cid patch = (r, w') \<Longrightarrow>
   (if redis_client w \<and> \<not> fst (external (snd (external w))) then redis_sessions w' cid = Some r
    else INMEM_SESSIONS w' cid = Some r)"
  by (auto simp: update_session_def Let_def external_def
      split: prod.splits option.splits list.splits if_splits)

lemma update_session_frame:
  "update_session w cid patch = (r, w') \<Longrightarrow> c \<noteq> cid \<Longrightarrow>
   INMEM_SESSIONS w' c = INMEM_SESSIONS w c \<and> redis_sessions w' c = redis_sessions w c"
  by (auto simp: update_session_def Let_def external_def
      split: prod.splits option.splits list.splits if_splits)

text \<open>
  The session stored for an identifier: the Redis record when a client is set, the
  in-memory record otherwise.
\<close>

definition stored_session :: "world \<Rightarrow> string \<Rightarrow> pydict option" where
  "stored_session w cid = (if redis_client w then redis_sessions w cid else INMEM_SESSIONS w cid)"

text \<open>
  A state with a Redis client that holds the received session of the call, and the same
  state when its next command raises.
\<close>

definition redis_world :: world where
  "redis_world = idle_world\<lparr>redis_client := True, redis_sessions := [''c1'' \<mapsto> received_session]\<rparr>"

definition outage_world :: world where
  "outage_world = redis_world\<lparr>faults := [True]\<rparr>"

lemma update_session_base:
  "prior_session w cid =
     (case (if redis_client w \<and> fst (external w) then INMEM_SESSIONS w cid
            else stored_session w cid) of
        None \<Rightarrow> [] | Some s \<Rightarrow> s)"
  by (simp add: prior_session_def get_session_def stored_session_def external_def Let_def
      split: list.splits)

text \<open>
  Claim C10, as the code has it. \<open>update_session\<close> merges the patch shallowly into the
  session it reads. When the read does not fail (there is no Redis client, or its \<open>GET\<close>
  does not raise), that is the stored session: a key that the patch does not name keeps
  the value it had there, and when no session is stored the new record has exactly the
  patch's fields. When the \<open>GET\<close> raises, the in-memory record takes the place of the
  stored one. Every key of the patch gets the patch's value, and the merged record is
  returned. It is stored for the identifier, in Redis when a client is set and its \<open>SET\<close>
  does not raise and in the in-memory dictionary otherwise (nothing is said here of a
  \<open>SET\<close> that succeeds after a \<open>GET\<close> that raised); the sessions of other identifiers are
  untouched.
\<close>

theorem update_session_shallow_merge:
  assumes "update_session w cid patch = (r, w')"
  shows "(\<not> (redis_client w \<and> fst (external w)) \<longrightarrow>
            (\<forall>k. k \<notin> fst ` set patch \<longrightarrow>
               map_of r k = (case stored_session w cid of None \<Rightarrow> None | Some s \<Rightarrow> map_of s k))
          \<and> (distinct (map fst patch) \<and> stored_session w cid = None \<longrightarrow>
               map_of r = map_of patch))
    \<and> (redis_client w \<and> fst (external w) \<longrightarrow>
            (\<forall>k. k \<notin> fst ` set patch \<longrightarrow>
               map_of r k = (case INMEM_SESSIONS w cid of None \<Rightarrow> None | Some s \<Rightarrow> map_of s k))
          \<and> (distinct (map fst patch) \<and> INMEM_SESSIONS w cid = None \<longrightarrow>
               map_of r = map_of patch))
    \<and> (distinct (map fst patch) \<longrightarrow> (\<forall>k v. (k, v) \<in> set patch \<longrightarrow> map_of r k = Some v))
    \<and> (\<not> (redis_client w \<and> fst (external w) \<and> \<not> fst (external (snd (external w)))) \<longrightarrow>
          (if redis_client w \<and> \<not> fst (external (snd (external w)))
           then redis_sessions w' cid = Some r else INMEM_SESSIONS w' cid = Some r))
    \<and> (\<forall>c. c \<noteq> cid \<longrightarrow>
          INMEM_SESSIONS w' c = INMEM_SESSIONS w c \<and> redis_sessions w' c = redis_sessions w c)"
proof -
  from assms have r: "r = dict_update (prior_session w cid) patch"
    using update_session_result [of w cid patch] by simp
  have f: "\<forall>k. k \<notin> fst ` set patch \<longrightarrow> map_of r k = map_of (prior_session w cid) k"
    by (simp add: r map_of_dict_update_other)
  have n: "distinct (map fst patch) \<and> prior_session w cid = [] \<longrightarrow> map_of r = map_of patch"
    by (simp add: r map_of_dict_update_empty)
  have c1: "\<not> (redis_client w \<and> fst (external w)) \<longrightarrow>
            (\<forall>k. k \<notin> fst ` set patch \<longrightarrow>
               map_of r k = (case stored_session w cid of None \<Rightarrow> None | Some s \<Rightarrow> map_of s k))
          \<and> (distinct (map fst patch) \<and> stored_session w cid = None \<longrightarrow>
               map_of r = map_of patch)"
    using f n unfolding update_session_base by (auto split: option.splits)
  have c2: "redis_client w \<and> fst (external w) \<longrightarrow>
            (\<forall>k. k \<notin> fst ` set patch \<longrightarrow>
               map_of r k = (case INMEM_SESSIONS w cid of None \<Rightarrow> None | Some s \<Rightarrow> map_of s k))
          \<and> (distinct (map fst patch) \<and> INMEM_SESSIONS w cid = None \<longrightarrow>
               map_of r = map_of patch)"
    using f n unfolding update_session_base by (auto split: option.splits)
  have c3: "distinct (map fst patch) \<longrightarrow>
      (\<forall>k v. (k, v) \<in> set patch \<longrightarrow> map_of r k = Some v)"
    by (simp add: r map_of_dict_update_in)
  have c4: "\<not> (redis_client w \<and> fst (external w) \<and> \<not> fst (external (snd (external w)))) \<longrightarrow>
          (if redis_client w \<and> \<not> fst (external (snd (external w)))
           then redis_sessions w' cid = Some r else INMEM_SESSIONS w' cid = Some r)"
    using update_session_stored [OF assms] by blast
  have c5: "\<forall>c. c \<noteq> cid \<longrightarrow>
      INMEM_SESSIONS w' c = INMEM_SESSIONS w c \<and> redis_sessions w' c = redis_sessions w c"
    using update_session_frame [OF assms] by blast
  from c1 c2 c3 c4 c5 show ?thesis
    by (intro conjI)
qed

text \<open>
  A received session patched with a status and a reply keeps its call identifier, in
  memory and in Redis; a patch for an unknown identifier creates the record; when the
  \<open>GET\<close> raises and nothing is held in memory, the record has the patch's fields only.
\<close>

theorem update_session_shallow_merge_witness:
  "map_of (fst (update_session received_world ''c1'' answered_patch)) ''call_id'' =
     Some (PStr ''c1'')
   \<and> map_of (fst (update_session received_world ''c1'' answered_patch)) ''status'' =
     Some (PStr ''answered'')
   \<and> map_of (fst (update_session received_world ''c1'' answered_patch)) ''last_reply'' =
     Some (PStr ''Hello!'')
   \<and> INMEM_SESSIONS (snd (update_session received_world ''c1'' answered_patch)) ''c1'' =
     Some (fst (update_session received_world ''c1'' answered_patch))
   \<and> map_of (fst (update_session idle_world ''c2'' answered_patch)) = map_of answered_patch
   \<and> map_of (fst (update_session redis_world ''c1'' answered_patch)) ''call_id'' =
     Some (PStr ''c1'')
   \<and> redis_sessions (snd (update_session redis_world ''c1'' answered_patch)) ''c1'' =
     Some (fst (update_session redis_world ''c1'' answered_patch))
   \<and> map_of (fst (update_session outage_world ''c1'' answered_patch)) = map_of answered_patch"
proof -
  have h1: "update_session received_world ''c1'' answered_patch =
      (fst (update_session received_world ''c1'' answered_patch),
       snd (update_session received_world ''c1'' answered_patch))"
    and h2: "update_session idle_world ''c2'' answered_patch =
      (fst (update_session idle_world ''c2'' answered_patch),
       snd (update_session idle_world ''c2'' answered_patch))"
    and h3: "update_session redis_world ''c1'' answered_patch =
      (fst (update_session redis_world ''c1'' answered_patch),
       snd (update_session redis_world ''c1'' answered_patch))"
    and h4: "update_session outage_world ''c1'' answered_patch =
      (fst (update_session outage_world ''c1'' answered_patch),
       snd (update_session outage_world ''c1'' answered_patch))"
    by simp_all
  note T1 = update_session_shallow_merge [OF h1]
  note T2 = update_session_shallow_merge [OF h2]
  note T3 = update_session_shallow_merge [OF h3]
  note T4 = update_session_shallow_merge [OF h4]
  have d: "distinct (map fst answered_patch)"
    "''call_id'' \<notin> fst ` set answered_patch"
    "(''status'', PStr ''answered'') \<in> set answered_patch"
    "(''last_reply'', PStr ''Hello!'') \<in> set answered_patch"
    by (simp_all add: answered_patch_def)
  have q1: "\<not> (redis_client received_world \<and> fst (external received_world))"
    "\<not> (redis_client received_world \<and> fst (external received_world)
        \<and> \<not> fst (external (snd (external received_world))))"
    "\<not> (redis_client received_world \<and> \<not> fst (external (snd (external received_world))))"
    "stored_session received_world ''c1'' = Some received_session"
    "map_of received_session ''call_id'' = Some (PStr ''c1'')"
    by (simp_all add: received_world_def idle_world_def stored_session_def received_session_def)
  have q2: "\<not> (redis_client idle_world \<and> fst (external idle_world))"
    "stored_session idle_world ''c2'' = None"
    by (simp_all add: idle_world_def stored_session_def)
  have q3: "\<not> (redis_client redis_world \<and> fst (external redis_world))"
    "\<not> (redis_client redis_world \<and> fst (external redis_world)
        \<and> \<not> fst (external (snd (external redis_world))))"
    "redis_client redis_world \<and> \<not> fst (external (snd (external redis_world)))"
    "stored_session redis_world ''c1'' = Some received_session"
    by (simp_all add: redis_world_def idle_world_def stored_session_def external_def)
  have q4: "redis_client outage_world \<and> fst (external outage_world)"
    "INMEM_SESSIONS outage_world ''c1'' = None"
    by (simp_all add: outage_world_def redis_world_def idle_world_def external_def)
  from T1 [THEN conjunct1, THEN mp, OF q1(1)] d(2) q1(4,5)
  have a1: "map_of (fst (update_session received_world ''c1'' answered_patch)) ''call_id'' =
     Some (PStr ''c1'')"
    by simp
  from T1 [THEN conjunct2, THEN conjunct2, THEN conjunct1, THEN mp, OF d(1)] d(3,4)
  have a2: "map_of (fst (update_session received_world ''c1'' answered_patch)) ''status'' =
     Some (PStr ''answered'')"
    "map_of (fst (update_session received_world ''c1'' answered_patch)) ''last_reply'' =
     Some (PStr ''Hello!'')"
    by blast+
  from T1 [THEN conjunct2, THEN conjunct2, THEN conjunct2, THEN conjunct1, THEN mp, OF q1(2)] q1(3)
  have a3: "INMEM_SESSIONS (snd (update_session received_world ''c1'' answered_patch)) ''c1'' =
     Some (fst (update_session received_world ''c1'' answered_patch))"
    by simp
  from T2 [THEN conjunct1, THEN mp, OF q2(1)] d(1) q2(2)
  have a4: "map_of (fst (update_session idle_world ''c2'' answered_patch)) = map_of answered_patch"
    by blast
  from T3 [THEN conjunct1, THEN mp, OF q3(1)] d(2) q3(4) q1(5)
  have a5: "map_of (fst (update_session redis_world ''c1'' answered_patch)) ''call_id'' =
     Some (PStr ''c1'')"
    by simp
  from T3 [THEN conjunct2, THEN conjunct2, THEN conjunct2, THEN conjunct1, THEN mp, OF q3(2)] q3(3)
  have a6: "redis_sessions (snd (update_session redis_world ''c1'' answered_patch)) ''c1'' =
     Some (fst (update_session redis_world ''c1'' answered_patch))"
    by simp
  from T4 [THEN conjunct2, THEN conjunct1, THEN mp, OF q4(1)] d(1) q4(2)
  have a7: "map_of (fst (update_session outage_world ''c1'' answered_patch)) = map_of answered_patch"
    by blast
  from a1 a2 a3 a4 a5 a6 a7 show ?thesis
    by (intro conjI)
qed

text \<open>
  The claim fails when the \<open>GET\<close> raises and the \<open>SET\<close> does not: the session is stored
  in Redis with the caller's number, the patch does not name that field, and the record
  that is returned, and written over the stored one, no longer has it.
\<close>

theorem update_session_read_failure_counterexample:
  "stored_session outage_world ''c1'' = Some received_session
   \<and> map_of received_session ''from'' = Some (PStr ''+15550001'')
   \<and> ''from'' \<notin> fst ` set answered_patch
   \<and> map_of (fst (update_session outage_world ''c1'' answered_patch)) ''from'' = None
   \<and> redis_sessions (snd (update_session outage_world ''c1'' answered_patch)) ''c1''
       = Some answered_patch"
  by code_simp

section \<open>Webhook secret\<close>

lemma inbound_call_rejects_iff:
  "WEBHOOK_SECRET \<noteq> [] \<Longrightarrow>
   fst (inbound_call WEBHOOK_SECRET hp w payload header) =
       Inl (HTTPException 403 ''Invalid webhook secret'')
     \<longleftrightarrow> (\<exists>h. header = Some h \<and> h \<noteq> WEBHOOK_SECRET)"
  by (auto simp: inbound_call_def accept_call_def Let_def split: prod.splits)

lemma accept_call_session:
  "\<exists>s. (if redis_client w \<and> \<not> fst (external w)
         then redis_sessions (snd (accept_call hp w payload)) (call_id payload)
         else INMEM_SESSIONS (snd (accept_call hp w payload)) (call_id payload)) = Some s
       \<and> dict_get s ''status'' = PStr ''received''
       \<and> dict_get s ''call_id'' = PStr (call_id payload)"
  by (auto simp: accept_call_def Let_def utcnow_def set_session_def external_def dict_get_def
      split: prod.splits list.splits)

lemma accept_call_scheduled:
  "background_tasks (snd (accept_call hp w payload)) =
     background_tasks w @ [if hp then ProcessCall payload else StubProcessCall payload]"
  by (auto simp: accept_call_def Let_def utcnow_def set_session_def external_def
      split: prod.splits list.splits)

text \<open>
  Claim C6. With a non-empty configured secret, \<open>inbound_call\<close> answers 403 exactly when
  the \<open>x-webhook-secret\<close> header is present and differs from the secret, and then it
  changes nothing. A request without the header is not compared: it is accepted like a
  request with the right secret, which means that the response is \<open>accepted\<close>, a session
  with status \<open>received\<close> is stored for the call (in Redis when a client is set and its
  write does not raise, in the in-memory dictionary otherwise) and one pipeline run is
  scheduled.
\<close>

theorem inbound_call_secret_check:
  assumes "WEBHOOK_SECRET \<noteq> []"
  shows "(fst (inbound_call WEBHOOK_SECRET hp w payload header) =
            Inl (HTTPException 403 ''Invalid webhook secret'')
          \<longleftrightarrow> (\<exists>h. header = Some h \<and> h \<noteq> WEBHOOK_SECRET))
     \<and> ((\<exists>h. header = Some h \<and> h \<noteq> WEBHOOK_SECRET) \<longrightarrow>
          snd (inbound_call WEBHOOK_SECRET hp w payload header) = w)
     \<and> (header = None \<or> header = Some WEBHOOK_SECRET \<longrightarrow>
          inbound_call WEBHOOK_SECRET hp w payload header = accept_call hp w payload)
     \<and> fst (accept_call hp w payload) =
          Inr [(''status'', PStr ''accepted''), (''call_id'', PStr (call_id payload))]
     \<and> background_tasks (snd (accept_call hp w payload)) =
          background_tasks w @ [if hp then ProcessCall payload else StubProcessCall payload]
     \<and> (\<exists>s. (if redis_client w \<and> \<not> fst (external w)
               then redis_sessions (snd (accept_call hp w payload)) (call_id payload)
               else INMEM_SESSIONS (snd (accept_call hp w payload)) (call_id payload)) = Some s
             \<and> dict_get s ''status'' = PStr ''received''
             \<and> dict_get s ''call_id'' = PStr (call_id payload))"
proof -
  have "(\<exists>h. header = Some h \<and> h \<noteq> WEBHOOK_SECRET) \<longrightarrow>
          snd (inbound_call WEBHOOK_SECRET hp w payload header) = w"
    using assms by (auto simp: inbound_call_def)
  moreover have "header = None \<or> header = Some WEBHOOK_SECRET \<longrightarrow>
          inbound_call WEBHOOK_SECRET hp w payload header = accept_call hp w payload"
    by (auto simp: inbound_call_def)
  moreover have "fst (accept_call hp w payload) =
          Inr [(''status'', PStr ''accepted''), (''call_id'', PStr (call_id payload))]"
    by (simp add: accept_call_def Let_def split: prod.splits)
  ultimately show ?thesis
    using inbound_call_rejects_iff [OF assms, of hp w payload header]
      accept_call_session [of w hp payload] accept_call_scheduled [of hp w payload]
    by blast
qed

text \<open>
  With the default secret: a request without the header is accepted, its session is stored
  with status \<open>received\<close> and its run is scheduled; a request with a wrong header is
  rejected.
\<close>

theorem inbound_call_secret_check_witness:
  "fst (inbound_call ''changeme'' True idle_world demo_call None) =
     Inr [(''status'', PStr ''accepted''), (''call_id'', PStr ''c1'')]
   \<and> background_tasks (snd (inbound_call ''changeme'' True idle_world demo_call None)) =
     [ProcessCall demo_call]
   \<and> fst (inbound_call ''changeme'' True idle_world demo_call (Some ''guess'')) =
     Inl (HTTPException 403 ''Invalid webhook secret'')
   \<and> snd (inbound_call ''changeme'' True idle_world demo_call (Some ''guess'')) = idle_world"
proof -
  have s: "''changeme'' \<noteq> []" by simp
  have a: "inbound_call ''changeme'' True idle_world demo_call None =
      accept_call True idle_world demo_call"
    using inbound_call_secret_check [OF s, of True idle_world demo_call None] by simp
  have b: "call_id demo_call = ''c1''" "background_tasks idle_world = []"
    by (simp_all add: demo_call_def idle_world_def)
  show ?thesis
    using inbound_call_secret_check [OF s, of True idle_world demo_call None]
      inbound_call_secret_check [OF s, of True idle_world demo_call "Some ''guess''"]
    by (simp add: a b)
qed

section \<open>Transcript queries\<close>

text \<open>
  The words of the claim as predicates: a row's timestamp lies in the inclusive window; a
  row passes the call filter (no identifier, or an empty one, is no filter); a result is
  ordered newest first.
\<close>

definition in_window :: "string \<Rightarrow> string \<Rightarrow> transcript_row \<Rightarrow> bool" where
  "in_window f t r =
     (case row_timestamp r of None \<Rightarrow> False | Some ts \<Rightarrow> f \<le> ts \<and> ts \<le> t)"

definition for_call :: "string option \<Rightarrow> transcript_row \<Rightarrow> bool" where
  "for_call cid r = (case cid of None \<Rightarrow> True | Some c \<Rightarrow> c = [] \<or> row_call_id r = c)"

definition newest_first :: "transcript_row list \<Rightarrow> bool" where
  "newest_first rs = sorted_wrt (\<lambda>a b. row_timestamp b \<le> row_timestamp a) rs"

lemma order_by_desc_set [simp]: "set (order_by_desc key xs) = set xs"
  by (simp add: order_by_desc_def)

lemma order_by_desc_sorted: "sorted_wrt (\<lambda>a b. key b \<le> key a) (order_by_desc key xs)"
proof -
  have "sorted (map key (sort_key key (rev xs)))" by simp
  then have "sorted_wrt (\<lambda>a b. key a \<le> key b) (sort_key key (rev xs))"
    by (simp add: sorted_map)
  then show ?thesis
    by (simp add: order_by_desc_def sorted_wrt_rev)
qed

lemma take_sorted_desc_rest:
  assumes "sorted_wrt (\<lambda>a b. key b \<le> key a) ys" "r \<in> set ys" "r \<notin> set (take n ys)"
  shows "length (take n ys) = n \<and> (\<forall>x\<in>set (take n ys). key r \<le> key x)"
proof -
  from assms(2,3) have d: "r \<in> set (drop n ys)"
    by (metis Un_iff append_take_drop_id set_append)
  then have "n < length ys" by (cases "n < length ys") auto
  then have l: "length (take n ys) = n" by simp
  from assms(1) have "sorted_wrt (\<lambda>a b. key b \<le> key a) (take n ys @ drop n ys)" by simp
  then have "\<forall>x\<in>set (take n ys). \<forall>y\<in>set (drop n ys). key y \<le> key x"
    unfolding sorted_wrt_append by blast
  with d l show ?thesis by blast
qed

lemma sql_ge_lower: "sql_ge a (Some f) \<longleftrightarrow> (\<exists>ts. a = Some ts \<and> f \<le> ts)"
  by (cases a) auto

lemma sql_ge_upper: "sql_ge (Some t) a \<longleftrightarrow> (\<exists>ts. a = Some ts \<and> ts \<le> t)"
  by (cases a) auto

text \<open>The rows that pass both filters, in table order.\<close>

definition matching :: "transcript_row list \<Rightarrow> string option \<Rightarrow> string \<Rightarrow> string \<Rightarrow> transcript_row list"
  where
  "matching rows cid f t = filter (\<lambda>r. for_call cid r \<and> in_window f t r) rows"

lemma select_transcripts_matching:
  assumes "t \<noteq> []"
  shows "select_transcripts rows cid (Some f) (Some t) limit =
           take limit (order_by_desc row_timestamp (matching rows cid f t))"
proof -
  have c: "(if truthy (opt_str cid) then filter (\<lambda>r. Some (row_call_id r) = cid) rows else rows)
      = filter (for_call cid) rows"
    by (cases cid) (auto simp: for_call_def intro: filter_cong)
  have l: "(if truthy (opt_str (Some f)) then filter (\<lambda>r. sql_ge (row_timestamp r) (Some f)) xs
            else xs)
      = filter (\<lambda>r. \<exists>ts. row_timestamp r = Some ts \<and> f \<le> ts \<or> f = []) xs" for xs
    by (auto simp: sql_ge_lower intro: filter_cong)
  have "filter (\<lambda>r. sql_ge (Some t) (row_timestamp r))
          (filter (\<lambda>r. \<exists>ts. row_timestamp r = Some ts \<and> f \<le> ts \<or> f = [])
             (filter (for_call cid) rows))
        = matching rows cid f t"
    unfolding matching_def filter_filter
    by (rule filter_cong) (auto simp: sql_ge_upper in_window_def split: option.splits)
  with assms show ?thesis
    unfolding select_transcripts_def Let_def c l by simp
qed

lemma select_transcripts_window:
  assumes "t \<noteq> []" "r \<in> set (select_transcripts rows cid (Some f) (Some t) limit)"
  shows "r \<in> set rows \<and> for_call cid r \<and> in_window f t r"
proof -
  from assms have "r \<in> set (matching rows cid f t)"
    by (auto simp: select_transcripts_matching dest: in_set_takeD)
  then show ?thesis by (simp add: matching_def)
qed

lemma select_transcripts_newest_first:
  assumes "t \<noteq> []"
  shows "newest_first (select_transcripts rows cid (Some f) (Some t) limit)"
  unfolding newest_first_def select_transcripts_matching [OF assms]
  by (rule sorted_wrt_take) (rule order_by_desc_sorted)

lemma select_transcripts_omitted:
  assumes "t \<noteq> []" "r \<in> set rows" "for_call cid r" "in_window f t r"
    "r \<notin> set (select_transcripts rows cid (Some f) (Some t) limit)"
  shows "length (select_transcripts rows cid (Some f) (Some t) limit) = limit
    \<and> (\<forall>x\<in>set (select_transcripts rows cid (Some f) (Some t) limit).
          row_timestamp r \<le> row_timestamp x)"
proof -
  from assms(2-4) have "r \<in> set (order_by_desc row_timestamp (matching rows cid f t))"
    by (simp add: matching_def)
  then show ?thesis
    using assms(5) unfolding select_transcripts_matching [OF assms(1)]
    by (intro take_sorted_desc_rest order_by_desc_sorted)
qed

lemma search_transcripts_result:
  "fst (search_transcripts w api_INMEM_TRANSCRIPTS cid from_ts to_ts limit) =
     (if fst (external w) \<or> fst (external (snd (external w))) then Inr []
      else Inr (map row_dict (select_transcripts (transcripts_table w) cid from_ts to_ts limit)))"
  by (auto simp: search_transcripts_def query_transcripts_def search_fallback_def search_all_def
      sorted_desc_def last_entries_def api_INMEM_TRANSCRIPTS_def external_def Let_def
      split: prod.splits list.splits option.splits)


lemma query_transcripts_result:
  "fst (query_transcripts w cid from_ts to_ts limit) =
     (if fst (external w) then Inl Exception
      else Inr (map row_dict (select_transcripts (transcripts_table w) cid from_ts to_ts limit)))"
  by (auto simp: query_transcripts_def external_def Let_def split: prod.splits list.splits)

text \<open>
  Claim C8. For a query with both bounds (the upper one non-empty: an empty string is
  taken as no bound by the code), every row of the result is a row of the table whose
  timestamp lies lexicographically in the inclusive window and that passes the call
  filter; the result is ordered newest first and has at most \<open>limit\<close> rows; a matching row
  is left out only when the result is full, and it is then no newer than any row of the
  result. \<open>query_transcripts\<close> returns these rows unless the database raises, and the
  endpoint \<open>search_transcripts\<close> returns them unless the import or the query raises, in
  which case its fallback finds nothing in its own, never written, dictionary.
\<close>

theorem query_transcripts_window:
  assumes "t \<noteq> []"
  shows "(\<forall>r\<in>set (select_transcripts rows cid (Some f) (Some t) limit).
            r \<in> set rows \<and> for_call cid r \<and> in_window f t r)
     \<and> newest_first (select_transcripts rows cid (Some f) (Some t) limit)
     \<and> length (select_transcripts rows cid (Some f) (Some t) limit) \<le> limit
     \<and> (\<forall>r\<in>set rows. for_call cid r \<and> in_window f t r
            \<and> r \<notin> set (select_transcripts rows cid (Some f) (Some t) limit) \<longrightarrow>
          length (select_transcripts rows cid (Some f) (Some t) limit) = limit
          \<and> (\<forall>x\<in>set (select_transcripts rows cid (Some f) (Some t) limit).
                row_timestamp r \<le> row_timestamp x))
     \<and> fst (query_transcripts w cid (Some f) (Some t) limit) =
         (if fst (external w) then Inl Exception
          else Inr (map row_dict
                 (select_transcripts (transcripts_table w) cid (Some f) (Some t) limit)))
     \<and> fst (search_transcripts w api_INMEM_TRANSCRIPTS cid (Some f) (Some t) limit) =
         (if fst (external w) \<or> fst (external (snd (external w))) then Inr []
          else Inr (map row_dict
                 (select_transcripts (transcripts_table w) cid (Some f) (Some t) limit)))"
proof -
  have "\<forall>r\<in>set (select_transcripts rows cid (Some f) (Some t) limit).
            r \<in> set rows \<and> for_call cid r \<and> in_window f t r"
    using select_transcripts_window [OF assms] by blast
  moreover have "newest_first (select_transcripts rows cid (Some f) (Some t) limit)"
    by (rule select_transcripts_newest_first [OF assms])
  moreover have "length (select_transcripts rows cid (Some f) (Some t) limit) \<le> limit"
    by (simp add: select_transcripts_def Let_def)
  moreover have "\<forall>r\<in>set rows. for_call cid r \<and> in_window f t r
            \<and> r \<notin> set (select_transcripts rows cid (Some f) (Some t) limit) \<longrightarrow>
          length (select_transcripts rows cid (Some f) (Some t) limit) = limit
          \<and> (\<forall>x\<in>set (select_transcripts rows cid (Some f) (Some t) limit).
                row_timestamp r \<le> row_timestamp x)"
    using select_transcripts_omitted [OF assms] by blast
  ultimately show ?thesis
    using query_transcripts_result [of w cid "Some f" "Some t" limit]
      search_transcripts_result [of w cid "Some f" "Some t" limit]
    by blast
qed

text \<open>
  One day's window over five rows with limit 2: the two newest rows of the day, newest
  first; the third row of the day is left out and is older.
\<close>

theorem query_transcripts_window_witness:
  "select_transcripts demo_rows None (Some ''2024-01-01T00:00:00'') (Some ''2024-01-01T23:59:59'') 2
     = [demo_row 4 ''c1'' ''2024-01-01T23:59:59'', demo_row 3 ''c2'' ''2024-01-01T12:00:00.000001'']
   \<and> in_window ''2024-01-01T00:00:00'' ''2024-01-01T23:59:59''
        (demo_row 3 ''c2'' ''2024-01-01T12:00:00.000001'')
   \<and> newest_first
        [demo_row 4 ''c1'' ''2024-01-01T23:59:59'', demo_row 3 ''c2'' ''2024-01-01T12:00:00.000001'']
   \<and> row_timestamp (demo_row 2 ''c1'' ''2024-01-01T00:00:00'')
        \<le> row_timestamp (demo_row 3 ''c2'' ''2024-01-01T12:00:00.000001'')"
proof -
  let ?f = "''2024-01-01T00:00:00''" and ?t = "''2024-01-01T23:59:59''"
  let ?r2 = "demo_row 2 ''c1'' ''2024-01-01T00:00:00''"
  let ?r3 = "demo_row 3 ''c2'' ''2024-01-01T12:00:00.000001''"
  let ?r4 = "demo_row 4 ''c1'' ''2024-01-01T23:59:59''"
  have t: "?t \<noteq> []" by simp
  have e: "select_transcripts demo_rows None (Some ?f) (Some ?t) 2 = [?r4, ?r3]"
    by code_simp
  have m: "?r2 \<in> set demo_rows" "for_call None ?r2" "in_window ?f ?t ?r2" "?r2 \<notin> set [?r4, ?r3]"
    by code_simp+
  note T = query_transcripts_window [OF t, of demo_rows None ?f 2 idle_world]
  from T have a: "\<forall>r\<in>set [?r4, ?r3]. r \<in> set demo_rows \<and> for_call None r \<and> in_window ?f ?t r"
    and b: "newest_first [?r4, ?r3]"
    and c: "\<forall>r\<in>set demo_rows. for_call None r \<and> in_window ?f ?t r \<and> r \<notin> set [?r4, ?r3] \<longrightarrow>
          length [?r4, ?r3] = 2 \<and> (\<forall>x\<in>set [?r4, ?r3]. row_timestamp r \<le> row_timestamp x)"
    unfolding e by blast+
  from a have "in_window ?f ?t ?r3" by simp
  moreover from c m have "row_timestamp ?r2 \<le> row_timestamp ?r3" by simp
  ultimately show ?thesis using e b by simp
qed

section \<open>The pipeline, step by step\<close>

lemma external_fst: "fst (external w) \<longleftrightarrow> (case faults w of [] \<Rightarrow> False | f # fs \<Rightarrow> f)"
  by (simp add: external_def split: list.splits)

lemma external_snd: "snd (external w) = w\<lparr>faults := tl (faults w)\<rparr>"
  by (simp add: external_def split: list.splits)

lemma utcnow_fst: "fst (utcnow w) = clock w (ticks w)"
  by (simp add: utcnow_def)

lemma utcnow_snd: "snd (utcnow w) = w\<lparr>ticks := Suc (ticks w)\<rparr>"
  by (simp add: utcnow_def)

lemmas step_simps = external_snd utcnow_fst utcnow_snd case_prod_beta Let_def

text \<open>The transcript lists of one call, \<open>[]\<close> when there is none.\<close>

definition redis_list :: "world \<Rightarrow> string \<Rightarrow> pyval list" where
  "redis_list w cid = (case redis_transcripts w cid of None \<Rightarrow> [] | Some es \<Rightarrow> es)"

definition inmem_list :: "world \<Rightarrow> string \<Rightarrow> pyval list" where
  "inmem_list w cid = (case INMEM_TRANSCRIPTS w cid of None \<Rightarrow> [] | Some es \<Rightarrow> es)"

text \<open>
  What the store functions leave alone: the clock, the client flag, and for the session
  functions the transcript lists and the table.
\<close>

lemma set_session_frame:
  "clock (set_session w cid s) = clock w"
  "ticks (set_session w cid s) = ticks w"
  "redis_client (set_session w cid s) = redis_client w"
  "redis_transcripts (set_session w cid s) = redis_transcripts w"
  "INMEM_TRANSCRIPTS (set_session w cid s) = INMEM_TRANSCRIPTS w"
  "transcripts_table (set_session w cid s) = transcripts_table w"
  "faults (set_session w cid s) = (if redis_client w then tl (faults w) else faults w)"
  by (simp_all add: set_session_def step_simps)

lemma get_session_frame:
  "snd (get_session w cid) = (if redis_client w then w\<lparr>faults := tl (faults w)\<rparr> else w)"
  by (simp add: get_session_def step_simps)

lemma update_session_frame_fields:
  "clock (snd (update_session w cid p)) = clock w"
  "ticks (snd (update_session w cid p)) = ticks w"
  "redis_client (snd (update_session w cid p)) = redis_client w"
  "redis_transcripts (snd (update_session w cid p)) = redis_transcripts w"
  "INMEM_TRANSCRIPTS (snd (update_session w cid p)) = INMEM_TRANSCRIPTS w"
  "transcripts_table (snd (update_session w cid p)) = transcripts_table w"
  by (simp_all add: update_session_def step_simps)

lemma push_transcript_frame:
  "clock (push_transcript w cid x) = clock w"
  "ticks (push_transcript w cid x) = ticks w"
  "redis_client (push_transcript w cid x) = redis_client w"
  "transcripts_table (push_transcript w cid x) = transcripts_table w"
  by (simp_all add: push_transcript_def step_simps)

lemma push_transcript_lists:
  "(redis_list (push_transcript w cid x) cid = redis_list w cid @ [x]
      \<and> inmem_list (push_transcript w cid x) cid = inmem_list w cid)
   \<or> (redis_list (push_transcript w cid x) cid = redis_list w cid
      \<and> inmem_list (push_transcript w cid x) cid = inmem_list w cid @ [x])"
  by (simp add: push_transcript_def step_simps redis_list_def inmem_list_def)

lemma append_transcript_frame:
  "clock (append_transcript w cid x) = clock w"
  "ticks (append_transcript w cid x) = ticks w"
  "redis_client (append_transcript w cid x) = redis_client w"
  "transcripts_table (append_transcript w cid x) = transcripts_table w"
  "redis_transcripts (append_transcript w cid x) = redis_transcripts (push_transcript w cid x)"
  "INMEM_TRANSCRIPTS (append_transcript w cid x) = INMEM_TRANSCRIPTS (push_transcript w cid x)"
  by (simp_all add: append_transcript_def step_simps set_session_frame get_session_frame
      push_transcript_frame split: option.splits sum.splits)


text \<open>
  A table row, and a stored entry, that carries a given call, timestamp, text and source.
  The row holds the text as the database stores it: a string as it is, a number as its
  digits.
\<close>

definition is_row :: "transcript_row \<Rightarrow> string \<Rightarrow> string \<Rightarrow> pyval \<Rightarrow> string \<Rightarrow> bool" where
  "is_row r cid ts txt source \<longleftrightarrow>
     row_call_id r = cid \<and> row_timestamp r = Some ts
     \<and> column_value txt = Inr (Some (row_text r)) \<and> row_source r = Some source"

lemma is_row_text: "is_row r cid ts (PStr s) source \<Longrightarrow> row_text r = s"
  by (simp add: is_row_def)

definition is_entry :: "pyval \<Rightarrow> string \<Rightarrow> string \<Rightarrow> pyval \<Rightarrow> string \<Rightarrow> bool" where
  "is_entry x cid ts txt source \<longleftrightarrow>
     (case x of
        PDict d \<Rightarrow> dict_get d ''call_id'' = PStr cid \<and> dict_get d ''timestamp'' = PStr ts
                  \<and> dict_get d ''text'' = txt \<and> dict_get d ''source'' = PStr source
      | v \<Rightarrow> False)"

lemma redis_list_append_transcript:
  "redis_list (append_transcript w cid x) cid = redis_list (push_transcript w cid x) cid"
  "inmem_list (append_transcript w cid x) cid = inmem_list (push_transcript w cid x) cid"
  by (simp_all add: redis_list_def inmem_list_def append_transcript_frame)

lemma append_transcript_effect:
  assumes "is_entry x cid ts txt source"
  shows "\<exists>es ms. redis_list (append_transcript w cid x) cid = redis_list w cid @ es
      \<and> inmem_list (append_transcript w cid x) cid = inmem_list w cid @ ms
      \<and> (\<forall>y\<in>set (es @ ms). is_entry y cid ts txt source) \<and> es @ ms \<noteq> []"
proof -
  from push_transcript_lists [of w cid x] show ?thesis
  proof
    assume "redis_list (push_transcript w cid x) cid = redis_list w cid @ [x]
      \<and> inmem_list (push_transcript w cid x) cid = inmem_list w cid"
    with assms show ?thesis
      by (intro exI [of _ "[x]"] exI [of _ "[]"]) (simp add: redis_list_append_transcript)
  next
    assume "redis_list (push_transcript w cid x) cid = redis_list w cid
      \<and> inmem_list (push_transcript w cid x) cid = inmem_list w cid @ [x]"
    with assms show ?thesis
      by (intro exI [of _ "[]"] exI [of _ "[x]"]) (simp add: redis_list_append_transcript)
  qed
qed

text \<open>The entry that \<open>_save_transcript_entry\<close> builds.\<close>

definition stamped_entry :: "string \<Rightarrow> string \<Rightarrow> pyval \<Rightarrow> string \<Rightarrow> pydict" where
  "stamped_entry cid now txt source =
     [(''call_id'', PStr cid), (''timestamp'', PStr now), (''text'', txt), (''source'', PStr source)]"

lemma fill_from_clock_fst:
  "fst (fill_from_clock k ew) =
     (if truthy (dict_get (fst ew) k) then fst ew
      else AList.update k (PStr (clock (snd ew) (ticks (snd ew)))) (fst ew))"
  by (simp add: fill_from_clock_def step_simps)

lemma fill_from_clock_snd:
  "snd (fill_from_clock k ew) =
     (if truthy (dict_get (fst ew) k) then snd ew
      else (snd ew)\<lparr>ticks := Suc (ticks (snd ew))\<rparr>)"
  by (simp add: fill_from_clock_def step_simps)

lemma fill_from_clock_frame:
  "clock (snd (fill_from_clock k ew)) = clock (snd ew)"
  "redis_client (snd (fill_from_clock k ew)) = redis_client (snd ew)"
  "redis_transcripts (snd (fill_from_clock k ew)) = redis_transcripts (snd ew)"
  "INMEM_TRANSCRIPTS (snd (fill_from_clock k ew)) = INMEM_TRANSCRIPTS (snd ew)"
  "transcripts_table (snd (fill_from_clock k ew)) = transcripts_table (snd ew)"
  "faults (snd (fill_from_clock k ew)) = faults (snd ew)"
  by (simp_all add: fill_from_clock_snd)

lemma insert_transcript_frame:
  "clock (snd (insert_transcript w entry)) = clock w"
  "ticks (snd (insert_transcript w entry)) = ticks w"
  "redis_client (snd (insert_transcript w entry)) = redis_client w"
  "redis_transcripts (snd (insert_transcript w entry)) = redis_transcripts w"
  "INMEM_TRANSCRIPTS (snd (insert_transcript w entry)) = INMEM_TRANSCRIPTS w"
  by (simp_all add: insert_transcript_def step_simps split: option.splits)

lemma bound_row_fields:
  assumes "bound_row n entry = Some r"
  shows "column_value (dict_get entry ''call_id'') = Inr (Some (row_call_id r))"
    "column_value (dict_get entry ''timestamp'') = Inr (row_timestamp r)"
    "column_value (dict_get entry ''text'') = Inr (Some (row_text r))"
    "column_value (dict_get entry ''source'') = Inr (row_source r)"
  using assms by (auto simp: bound_row_def split: sum.splits option.splits)

lemma insert_transcript_table:
  "\<exists>rows. transcripts_table (snd (insert_transcript w entry)) = transcripts_table w @ rows
     \<and> (\<forall>r\<in>set rows. column_value (dict_get entry ''call_id'') = Inr (Some (row_call_id r))
            \<and> column_value (dict_get entry ''text'') = Inr (Some (row_text r))
            \<and> column_value (dict_get entry ''timestamp'') = Inr (row_timestamp r)
            \<and> column_value (dict_get entry ''source'') = Inr (row_source r))
     \<and> (\<forall>row. fst (insert_transcript w entry) = Inr row \<longrightarrow> rows \<noteq> [])"
proof (cases "bound_row (Suc (length (transcripts_table w))) entry")
  case None
  then show ?thesis
    by (simp add: insert_transcript_def step_simps)
next
  case (Some r)
  from bound_row_fields [OF Some] show ?thesis
    by (cases "fst (external w)") (simp_all add: insert_transcript_def step_simps Some)
qed


lemma stamped_fill:
  "fill_from_clock ''created_at'' (fill_from_clock ''timestamp'' (stamped_entry cid now c src, w))
     = (if now \<noteq> [] then
          (stamped_entry cid now c src @ [(''created_at'', PStr (clock w (ticks w)))],
           w\<lparr>ticks := Suc (ticks w)\<rparr>)
        else
          (stamped_entry cid (clock w (ticks w)) c src
             @ [(''created_at'', PStr (clock w (Suc (ticks w))))],
           w\<lparr>ticks := Suc (Suc (ticks w))\<rparr>))"
  by (simp add: fill_from_clock_def stamped_entry_def step_simps dict_get_def)

lemma stamped_get:
  "dict_get (stamped_entry cid ts c src @ extra) ''call_id'' = PStr cid"
  "dict_get (stamped_entry cid ts c src @ extra) ''timestamp'' = PStr ts"
  "dict_get (stamped_entry cid ts c src @ extra) ''text'' = c"
  "dict_get (stamped_entry cid ts c src @ extra) ''source'' = PStr src"
  by (simp_all add: stamped_entry_def dict_get_def)

lemma is_entry_stamped: "is_entry (PDict (stamped_entry cid ts c src @ extra)) cid ts c src"
  by (simp add: is_entry_def stamped_get)

lemma is_entry_stamped0: "is_entry (PDict (stamped_entry cid ts c src)) cid ts c src"
  using is_entry_stamped [of cid ts c src "[]"] by simp

lemma redis_list_cong:
  "redis_transcripts w' = redis_transcripts w \<Longrightarrow> redis_list w' cid = redis_list w cid"
  "INMEM_TRANSCRIPTS w' = INMEM_TRANSCRIPTS w \<Longrightarrow> inmem_list w' cid = inmem_list w cid"
  by (simp_all add: redis_list_def inmem_list_def)

text \<open>
  What one \<open>_save_transcript_entry\<close> does, between a state and the next: each of the three
  stores of the call grows at its end, by rows and entries that all carry the call, the
  clock reading \<open>k\<close>, the text and the source, and at least one of them grows.
\<close>

definition saved_once :: "world \<Rightarrow> world \<Rightarrow> string \<Rightarrow> nat \<Rightarrow> pyval \<Rightarrow> string \<Rightarrow> bool" where
  "saved_once w w' cid k c src \<longleftrightarrow>
     (\<exists>rows es ms.
        transcripts_table w' = transcripts_table w @ rows
      \<and> redis_list w' cid = redis_list w cid @ es
      \<and> inmem_list w' cid = inmem_list w cid @ ms
      \<and> (\<forall>r\<in>set rows. is_row r cid (clock w k) c src)
      \<and> (\<forall>x\<in>set (es @ ms). is_entry x cid (clock w k) c src)
      \<and> (rows \<noteq> [] \<or> es @ ms \<noteq> []))"

lemma saved_once_append:
  assumes "is_entry x cid (clock w k) c src"
    and "transcripts_table w1 = transcripts_table w @ rows"
    and "\<forall>r\<in>set rows. is_row r cid (clock w k) c src"
    and "redis_transcripts w1 = redis_transcripts w" "INMEM_TRANSCRIPTS w1 = INMEM_TRANSCRIPTS w"
  shows "saved_once w (append_transcript w1 cid x) cid k c src"
proof -
  from append_transcript_effect [OF assms(1), of w1] obtain es ms where
    "redis_list (append_transcript w1 cid x) cid = redis_list w1 cid @ es"
    "inmem_list (append_transcript w1 cid x) cid = inmem_list w1 cid @ ms"
    "\<forall>y\<in>set (es @ ms). is_entry y cid (clock w k) c src" "es @ ms \<noteq> []"
    by blast
  with assms(2-5) have "transcripts_table (append_transcript w1 cid x) = transcripts_table w @ rows
      \<and> redis_list (append_transcript w1 cid x) cid = redis_list w cid @ es
      \<and> inmem_list (append_transcript w1 cid x) cid = inmem_list w cid @ ms
      \<and> (\<forall>r\<in>set rows. is_row r cid (clock w k) c src)
      \<and> (\<forall>x\<in>set (es @ ms). is_entry x cid (clock w k) c src)
      \<and> (rows \<noteq> [] \<or> es @ ms \<noteq> [])"
    using redis_list_cong [of w1 w cid] by (simp add: append_transcript_frame)
  then show ?thesis
    unfolding saved_once_def by blast
qed


lemma saved_via_insert:
  fixes w wa :: world and cid src :: string and k :: nat and c :: pyval and extra :: pydict
  assumes f: "clock wa = clock w" "transcripts_table wa = transcripts_table w"
      "redis_transcripts wa = redis_transcripts w" "INMEM_TRANSCRIPTS wa = INMEM_TRANSCRIPTS w"
  defines "entry1 \<equiv> stamped_entry cid (clock w k) c src @ extra"
  shows "saved_once w
     (case insert_transcript wa entry1 of
        (Inr row, w3) \<Rightarrow> w3
      | (Inl e, w3) \<Rightarrow> append_transcript w3 cid (PDict entry1)) cid k c src"
proof -
  obtain res w3 where ins: "insert_transcript wa entry1 = (res, w3)"
    by (cases "insert_transcript wa entry1")
  from insert_transcript_table [of wa entry1] ins obtain rows where
    t: "transcripts_table w3 = transcripts_table w @ rows"
    and r: "\<forall>r\<in>set rows. column_value (dict_get entry1 ''call_id'') = Inr (Some (row_call_id r))
            \<and> column_value (dict_get entry1 ''text'') = Inr (Some (row_text r))
            \<and> column_value (dict_get entry1 ''timestamp'') = Inr (row_timestamp r)
            \<and> column_value (dict_get entry1 ''source'') = Inr (row_source r)"
    and n: "\<forall>row. res = Inr row \<longrightarrow> rows \<noteq> []"
    using f(2) by auto
  from r have rows: "\<forall>r\<in>set rows. is_row r cid (clock w k) c src"
    by (auto simp: entry1_def stamped_get is_row_def)
  from insert_transcript_frame [of wa entry1] ins f
  have fr: "redis_transcripts w3 = redis_transcripts w" "INMEM_TRANSCRIPTS w3 = INMEM_TRANSCRIPTS w"
    by simp_all
  show ?thesis
  proof (cases res)
    case (Inl e)
    have "is_entry (PDict entry1) cid (clock w k) c src"
      unfolding entry1_def by (rule is_entry_stamped)
    then have "saved_once w (append_transcript w3 cid (PDict entry1)) cid k c src"
      using t rows fr by (rule saved_once_append)
    with ins Inl show ?thesis by simp
  next
    case (Inr row)
    with n have "rows \<noteq> []" by simp
    with t rows fr have "saved_once w w3 cid k c src"
      unfolding saved_once_def
      using redis_list_cong [of w3 w cid] by auto
    with ins Inr show ?thesis by simp
  qed
qed

lemma save_transcript_entry_once:
  "\<exists>k. ticks w \<le> k \<and> k < ticks (save_transcript_entry w cid c src)
       \<and> saved_once w (save_transcript_entry w cid c src) cid k c src"
proof -
  let ?now = "clock w (ticks w)"
  let ?w2 = "w\<lparr>ticks := Suc (ticks w), faults := tl (faults w)\<rparr>"
  show ?thesis
  proof (cases "fst (external (w\<lparr>ticks := Suc (ticks w)\<rparr>))")
    case True
    then have eq: "save_transcript_entry w cid c src =
        append_transcript ?w2 cid (PDict (stamped_entry cid ?now c src))"
      by (simp add: save_transcript_entry_def step_simps stamped_entry_def)
    have "saved_once w (append_transcript ?w2 cid (PDict (stamped_entry cid ?now c src)))
        cid (ticks w) c src"
      by (rule saved_once_append [where rows = "[]"]) (simp_all add: is_entry_stamped0)
    then show ?thesis
      unfolding eq by (intro exI [of _ "ticks w"]) (simp add: append_transcript_frame)
  next
    case False
    show ?thesis
    proof (cases "?now = []")
      case now: False
      let ?wa = "?w2\<lparr>ticks := Suc (Suc (ticks w))\<rparr>"
      let ?e1 = "stamped_entry cid ?now c src @ [(''created_at'', PStr (clock w (Suc (ticks w))))]"
      from False now have eq: "save_transcript_entry w cid c src =
          (case insert_transcript ?wa ?e1 of
             (Inr row, w3) \<Rightarrow> w3
           | (Inl e, w3) \<Rightarrow> append_transcript w3 cid (PDict ?e1))"
        by (simp add: save_transcript_entry_def save_transcript_def step_simps
            stamped_entry_def [symmetric] stamped_fill split: prod.splits sum.splits)
      have s: "saved_once w (save_transcript_entry w cid c src) cid (ticks w) c src"
        unfolding eq by (rule saved_via_insert) simp_all
      have "ticks (save_transcript_entry w cid c src) = Suc (Suc (ticks w))"
        unfolding eq
        by (cases "insert_transcript ?wa ?e1"; cases "fst (insert_transcript ?wa ?e1)")
           (use insert_transcript_frame(2) [of ?wa ?e1] in \<open>simp_all add: append_transcript_frame\<close>)
      with s show ?thesis by (intro exI [of _ "ticks w"]) simp
    next
      case now: True
      let ?wa = "?w2\<lparr>ticks := Suc (Suc (Suc (ticks w)))\<rparr>"
      let ?e1 = "stamped_entry cid (clock w (Suc (ticks w))) c src
                   @ [(''created_at'', PStr (clock w (Suc (Suc (ticks w)))))]"
      from False now have eq: "save_transcript_entry w cid c src =
          (case insert_transcript ?wa ?e1 of
             (Inr row, w3) \<Rightarrow> w3
           | (Inl e, w3) \<Rightarrow> append_transcript w3 cid (PDict ?e1))"
        by (simp add: save_transcript_entry_def save_transcript_def step_simps
            stamped_entry_def [symmetric] stamped_fill split: prod.splits sum.splits)
      have s: "saved_once w (save_transcript_entry w cid c src) cid (Suc (ticks w)) c src"
        unfolding eq by (rule saved_via_insert) simp_all
      have "ticks (save_transcript_entry w cid c src) = Suc (Suc (Suc (ticks w)))"
        unfolding eq
        by (cases "insert_transcript ?wa ?e1"; cases "fst (insert_transcript ?wa ?e1)")
           (use insert_transcript_frame(2) [of ?wa ?e1] in \<open>simp_all add: append_transcript_frame\<close>)
      with s show ?thesis by (intro exI [of _ "Suc (ticks w)"]) simp
    qed
  qed
qed


lemma save_transcript_entry_frame:
  "clock (save_transcript_entry w cid c src) = clock w"
  "redis_client (save_transcript_entry w cid c src) = redis_client w"
  by (simp_all add: save_transcript_entry_def save_transcript_def step_simps
      append_transcript_frame insert_transcript_frame fill_from_clock_frame
      split: prod.splits sum.splits)

lemma quiet_external: "faults w = [] \<Longrightarrow> external w = (False, w)"
  by (simp add: external_def)

lemma quiet_set_session: "faults w = [] \<Longrightarrow> faults (set_session w cid s) = []"
  by (simp add: set_session_def quiet_external)

lemma quiet_get_session: "faults w = [] \<Longrightarrow> faults (snd (get_session w cid)) = []"
  by (simp add: get_session_def quiet_external)

lemma quiet_push_transcript: "faults w = [] \<Longrightarrow> faults (push_transcript w cid x) = []"
  by (simp add: push_transcript_def quiet_external Let_def)

lemma quiet_append_transcript: "faults w = [] \<Longrightarrow> faults (append_transcript w cid x) = []"
  by (simp add: append_transcript_def Let_def case_prod_beta quiet_set_session
      quiet_get_session quiet_push_transcript split: option.splits sum.splits)

lemma quiet_insert_transcript: "faults w = [] \<Longrightarrow> faults (snd (insert_transcript w entry)) = []"
  by (simp add: insert_transcript_def quiet_external Let_def split: option.splits)

lemma quiet_save_transcript_entry:
  "faults w = [] \<Longrightarrow> faults (save_transcript_entry w cid c src) = []"
  by (simp add: save_transcript_entry_def save_transcript_def Let_def case_prod_beta
      utcnow_def quiet_external quiet_append_transcript quiet_insert_transcript
      fill_from_clock_frame split: prod.splits sum.splits)


text \<open>
  Names for what the steps of \<open>process_call\<close> compute from the environment and the payload:
  the Responder's result, the reply and escalation flag after the flow step, the status
  written at the end, the state before the final patch, and the patch.
\<close>

definition responded :: "env \<Rightarrow> CallWebhook \<Rightarrow> pydict" where
  "responded e payload = stage_respond e (stage_transcribe e (media_url payload))"

definition overridden :: "env \<Rightarrow> CallWebhook \<Rightarrow> pyval \<times> pyval" where
  "overridden e payload =
     stage_flow e (dict_get (responded e payload) ''intent'')
       (stage_transcribe e (media_url payload))
       (dict_get_default (responded e payload) ''reply'' (PStr []))
       (PBool (truthy (dict_get_default (responded e payload) ''escalate'' (PBool False))))"

definition final_status :: "env \<Rightarrow> CallWebhook \<Rightarrow> string" where
  "final_status e payload =
     (if truthy (snd (overridden e payload)) then ''escalated'' else ''completed'')"

lemma process_call_summary:
  "fst (process_call e w payload) =
     [(''call_id'', PStr (call_id payload)),
      (''intent'', dict_get (responded e payload) ''intent''),
      (''reply'', fst (overridden e payload)),
      (''media_out'', stage_synthesize e (fst (overridden e payload)) (call_id payload)),
      (''escalated'', snd (overridden e payload)),
      (''agent'', stage_escalate e (snd (overridden e payload)) (call_id payload))]"
  by (simp add: process_call_def responded_def overridden_def Let_def case_prod_beta)

definition before_patch :: "env \<Rightarrow> world \<Rightarrow> CallWebhook \<Rightarrow> world" where
  "before_patch e w payload =
     save_transcript_entry
       (save_transcript_entry w (call_id payload)
          (PStr (stage_transcribe e (media_url payload))) ''asr'')
       (call_id payload) (dict_get_default (responded e payload) ''reply'' (PStr [])) ''llm''"

definition patch_of :: "env \<Rightarrow> CallWebhook \<Rightarrow> string \<Rightarrow> pydict" where
  "patch_of e payload now =
     [(''status'', PStr (final_status e payload)),
      (''last_intent'', dict_get (responded e payload) ''intent''),
      (''last_reply'', fst (overridden e payload)),
      (''media_out'', stage_synthesize e (fst (overridden e payload)) (call_id payload)),
      (''agent'', stage_escalate e (snd (overridden e payload)) (call_id payload)),
      (''last_update'', PStr now)]"

lemma process_call_world:
  "snd (process_call e w payload) =
     snd (update_session ((before_patch e w payload)\<lparr>ticks := Suc (ticks (before_patch e w payload))\<rparr>)
            (call_id payload)
            (patch_of e payload (clock (before_patch e w payload) (ticks (before_patch e w payload)))))"
  by (simp add: process_call_def responded_def overridden_def before_patch_def patch_of_def
      final_status_def update_session_best_effort_def Let_def case_prod_beta utcnow_def)

lemma update_session_patched:
  assumes "distinct (map fst patch)"
  shows "\<exists>s. (if redis_client w \<and> \<not> fst (external (snd (external w)))
              then redis_sessions (snd (update_session w cid patch)) cid
              else INMEM_SESSIONS (snd (update_session w cid patch)) cid) = Some s
           \<and> (\<forall>k v. (k, v) \<in> set patch \<longrightarrow> dict_get s k = v)"
proof -
  obtain r w' where u: "update_session w cid patch = (r, w')"
    by (cases "update_session w cid patch")
  then have "r = dict_update (prior_session w cid) patch"
    using update_session_result [of w cid patch] by simp
  with assms have "\<forall>k v. (k, v) \<in> set patch \<longrightarrow> dict_get r k = v"
    by (simp add: dict_get_def map_of_dict_update_in)
  with update_session_stored [OF u] u show ?thesis
    by (auto split: if_splits)
qed

lemma update_session_then_get:
  assumes "\<not> redis_client w \<or> faults w = []"
  shows "fst (get_session (snd (update_session w cid patch)) cid) =
           Some (fst (update_session w cid patch))"
  using assms
  by (auto simp: update_session_def get_session_def Let_def quiet_external
      split: prod.splits option.splits)

lemma process_call_lists:
  "transcripts_table (snd (process_call e w payload)) = transcripts_table (before_patch e w payload)"
  "redis_list (snd (process_call e w payload)) cid = redis_list (before_patch e w payload) cid"
  "inmem_list (snd (process_call e w payload)) cid = inmem_list (before_patch e w payload) cid"
  by (simp_all add: process_call_world update_session_frame_fields redis_list_def inmem_list_def)

lemma before_patch_frame:
  "clock (before_patch e w payload) = clock w"
  "redis_client (before_patch e w payload) = redis_client w"
  "faults w = [] \<Longrightarrow> faults (before_patch e w payload) = []"
  by (simp_all add: before_patch_def save_transcript_entry_frame quiet_save_transcript_entry)

lemma patch_of_distinct: "distinct (map fst (patch_of e payload now))"
  by (simp add: patch_of_def)

lemma process_call_stored:
  "\<exists>s. (redis_sessions (snd (process_call e w payload)) (call_id payload) = Some s
          \<or> INMEM_SESSIONS (snd (process_call e w payload)) (call_id payload) = Some s)
       \<and> dict_get s ''status'' = PStr (final_status e payload)
       \<and> dict_get s ''last_intent'' = dict_get (responded e payload) ''intent''
       \<and> dict_get s ''last_reply'' = fst (overridden e payload)
       \<and> dict_get s ''media_out'' =
            stage_synthesize e (fst (overridden e payload)) (call_id payload)
       \<and> dict_get s ''agent'' = stage_escalate e (snd (overridden e payload)) (call_id payload)"
proof -
  let ?w3 = "(before_patch e w payload)\<lparr>ticks := Suc (ticks (before_patch e w payload))\<rparr>"
  let ?p = "patch_of e payload (clock (before_patch e w payload) (ticks (before_patch e w payload)))"
  from update_session_patched [OF patch_of_distinct, of ?w3 "call_id payload" e payload
      "clock (before_patch e w payload) (ticks (before_patch e w payload))"]
  obtain s where st: "(if redis_client ?w3 \<and> \<not> fst (external (snd (external ?w3)))
              then redis_sessions (snd (update_session ?w3 (call_id payload) ?p)) (call_id payload)
              else INMEM_SESSIONS (snd (update_session ?w3 (call_id payload) ?p)) (call_id payload))
             = Some s"
    and k: "\<forall>k v. (k, v) \<in> set ?p \<longrightarrow> dict_get s k = v"
    by blast
  from st have "redis_sessions (snd (process_call e w payload)) (call_id payload) = Some s
          \<or> INMEM_SESSIONS (snd (process_call e w payload)) (call_id payload) = Some s"
    unfolding process_call_world by (auto split: if_splits)
  moreover from k have "dict_get s ''status'' = PStr (final_status e payload)"
    "dict_get s ''last_intent'' = dict_get (responded e payload) ''intent''"
    "dict_get s ''last_reply'' = fst (overridden e payload)"
    "dict_get s ''media_out'' = stage_synthesize e (fst (overridden e payload)) (call_id payload)"
    "dict_get s ''agent'' = stage_escalate e (snd (overridden e payload)) (call_id payload)"
    by (simp_all add: patch_of_def)
  ultimately show ?thesis by blast
qed

lemma process_call_then_get_field:
  assumes "\<not> redis_client w \<or> faults w = []"
  shows "\<exists>s. fst (get_session (snd (process_call e w payload)) (call_id payload)) = Some s
       \<and> dict_get s ''status'' = PStr (final_status e payload)
       \<and> dict_get s ''last_intent'' = dict_get (responded e payload) ''intent''
       \<and> dict_get s ''last_reply'' = fst (overridden e payload)
       \<and> dict_get s ''media_out'' =
            stage_synthesize e (fst (overridden e payload)) (call_id payload)
       \<and> dict_get s ''agent'' = stage_escalate e (snd (overridden e payload)) (call_id payload)"
proof -
  let ?w3 = "(before_patch e w payload)\<lparr>ticks := Suc (ticks (before_patch e w payload))\<rparr>"
  let ?p = "patch_of e payload (clock (before_patch e w payload) (ticks (before_patch e w payload)))"
  let ?r = "fst (update_session ?w3 (call_id payload) ?p)"
  from assms have q: "\<not> redis_client ?w3 \<or> faults ?w3 = []"
    by (auto simp: before_patch_frame)
  have r: "?r = dict_update (prior_session ?w3 (call_id payload)) ?p"
    by (rule update_session_result)
  have "\<forall>k v. (k, v) \<in> set ?p \<longrightarrow> dict_get ?r k = v"
    unfolding r using patch_of_distinct [of e payload]
    by (simp add: dict_get_def map_of_dict_update_in)
  then have "dict_get ?r ''status'' = PStr (final_status e payload)"
    "dict_get ?r ''last_intent'' = dict_get (responded e payload) ''intent''"
    "dict_get ?r ''last_reply'' = fst (overridden e payload)"
    "dict_get ?r ''media_out'' = stage_synthesize e (fst (overridden e payload)) (call_id payload)"
    "dict_get ?r ''agent'' = stage_escalate e (snd (overridden e payload)) (call_id payload)"
    by (simp_all add: patch_of_def)
  with update_session_then_get [OF q, of "call_id payload" ?p] show ?thesis
    unfolding process_call_world by simp
qed

text \<open>A field of the session that a lookup returns for a call, \<open>None\<close> when there is none.\<close>

definition session_field :: "world \<Rightarrow> string \<Rightarrow> string \<Rightarrow> pyval" where
  "session_field w cid k =
     (case fst (get_session w cid) of None \<Rightarrow> PNone | Some s \<Rightarrow> dict_get s k)"

section \<open>Transcript entries of a run\<close>

lemma common_prefix_le: "xs @ [a] \<le> xs @ [b] \<longleftrightarrow> a \<le> (b :: char)"
  by (induction xs) auto

lemma demo_clock_mono: "i \<le> j \<Longrightarrow> demo_clock i \<le> demo_clock j"
  unfolding demo_clock_def common_prefix_le
  by (simp add: less_eq_char_def)

text \<open>
  Claim C9. A run appends the transcription entry and then the response entry: each of
  the three places where transcripts of the call are kept (the table, the Redis list, the
  in-memory list) grows at its end by copies of the first entry followed by copies of the
  second, and each entry lands in at least one place. The first entry is tagged \<open>asr\<close> and
  carries the transcript, the second is tagged \<open>llm\<close> and carries the Responder's reply as
  it is before the flow step. Their timestamps are two successive readings of the clock,
  so they ascend when the clock does not run backwards.
\<close>

theorem process_call_transcripts:
  assumes run: "process_call e w payload = (summary, w')"
    and mono: "\<forall>i j. i \<le> j \<longrightarrow> clock w i \<le> clock w j"
  shows "\<exists>t1 t2 rows1 rows2 es1 es2 ms1 ms2.
      transcripts_table w' = transcripts_table w @ rows1 @ rows2
    \<and> redis_list w' (call_id payload) = redis_list w (call_id payload) @ es1 @ es2
    \<and> inmem_list w' (call_id payload) = inmem_list w (call_id payload) @ ms1 @ ms2
    \<and> (\<forall>r\<in>set rows1. is_row r (call_id payload) t1
           (PStr (stage_transcribe e (media_url payload))) ''asr'')
    \<and> (\<forall>x\<in>set (es1 @ ms1). is_entry x (call_id payload) t1
           (PStr (stage_transcribe e (media_url payload))) ''asr'')
    \<and> (rows1 \<noteq> [] \<or> es1 @ ms1 \<noteq> [])
    \<and> (\<forall>r\<in>set rows2. is_row r (call_id payload) t2
           (dict_get_default (stage_respond e (stage_transcribe e (media_url payload)))
              ''reply'' (PStr [])) ''llm'')
    \<and> (\<forall>x\<in>set (es2 @ ms2). is_entry x (call_id payload) t2
           (dict_get_default (stage_respond e (stage_transcribe e (media_url payload)))
              ''reply'' (PStr [])) ''llm'')
    \<and> (rows2 \<noteq> [] \<or> es2 @ ms2 \<noteq> [])
    \<and> t1 \<le> t2"
proof -
  let ?cid = "call_id payload"
  let ?asr = "PStr (stage_transcribe e (media_url payload))"
  let ?reply = "dict_get_default (stage_respond e (stage_transcribe e (media_url payload)))
      ''reply'' (PStr [])"
  let ?w1 = "save_transcript_entry w ?cid ?asr ''asr''"
  let ?w2 = "save_transcript_entry ?w1 ?cid ?reply ''llm''"
  have w2: "before_patch e w payload = ?w2"
    by (simp add: before_patch_def responded_def)
  from run have w': "w' = snd (process_call e w payload)" by simp
  obtain k1 where k1: "k1 < ticks ?w1" and s1: "saved_once w ?w1 ?cid k1 ?asr ''asr''"
    using save_transcript_entry_once [of w ?cid ?asr "''asr''"] by blast
  obtain k2 where k2: "ticks ?w1 \<le> k2" and s2: "saved_once ?w1 ?w2 ?cid k2 ?reply ''llm''"
    using save_transcript_entry_once [of ?w1 ?cid ?reply "''llm''"] by blast
  have c1: "clock ?w1 = clock w" by (rule save_transcript_entry_frame)
  from s1 obtain rows1 es1 ms1 where a:
    "transcripts_table ?w1 = transcripts_table w @ rows1"
    "redis_list ?w1 ?cid = redis_list w ?cid @ es1"
    "inmem_list ?w1 ?cid = inmem_list w ?cid @ ms1"
    "\<forall>r\<in>set rows1. is_row r ?cid (clock w k1) ?asr ''asr''"
    "\<forall>x\<in>set (es1 @ ms1). is_entry x ?cid (clock w k1) ?asr ''asr''"
    "rows1 \<noteq> [] \<or> es1 @ ms1 \<noteq> []"
    unfolding saved_once_def by blast
  from s2 obtain rows2 es2 ms2 where b:
    "transcripts_table ?w2 = transcripts_table ?w1 @ rows2"
    "redis_list ?w2 ?cid = redis_list ?w1 ?cid @ es2"
    "inmem_list ?w2 ?cid = inmem_list ?w1 ?cid @ ms2"
    "\<forall>r\<in>set rows2. is_row r ?cid (clock w k2) ?reply ''llm''"
    "\<forall>x\<in>set (es2 @ ms2). is_entry x ?cid (clock w k2) ?reply ''llm''"
    "rows2 \<noteq> [] \<or> es2 @ ms2 \<noteq> []"
    unfolding saved_once_def c1 by blast
  from k1 k2 mono have t: "clock w k1 \<le> clock w k2" by simp
  have "transcripts_table w' = transcripts_table w @ rows1 @ rows2"
    "redis_list w' ?cid = redis_list w ?cid @ es1 @ es2"
    "inmem_list w' ?cid = inmem_list w ?cid @ ms1 @ ms2"
    by (simp_all add: w' process_call_lists w2 a b)
  with a(4-6) b(4-6) t show ?thesis by blast
qed


text \<open>
  The default components with the docstring's flow stored: the two rows are in the table,
  and the logged reply is the Responder's, not the one that the flow puts in its place.
\<close>

theorem process_call_transcripts_witness:
  "(\<exists>t1 t2 rows1 rows2 es1 es2 ms1 ms2.
      transcripts_table (snd (process_call (default_env [faq_flow]) received_world demo_call))
        = transcripts_table received_world @ rows1 @ rows2
    \<and> redis_list (snd (process_call (default_env [faq_flow]) received_world demo_call)) ''c1''
        = redis_list received_world ''c1'' @ es1 @ es2
    \<and> inmem_list (snd (process_call (default_env [faq_flow]) received_world demo_call)) ''c1''
        = inmem_list received_world ''c1'' @ ms1 @ ms2
    \<and> (\<forall>r\<in>set rows1. is_row r ''c1'' t1
           (PStr ''stubbed transcript: hello I want my account balance'') ''asr'')
    \<and> (\<forall>x\<in>set (es1 @ ms1). is_entry x ''c1'' t1
           (PStr ''stubbed transcript: hello I want my account balance'') ''asr'')
    \<and> (rows1 \<noteq> [] \<or> es1 @ ms1 \<noteq> [])
    \<and> (\<forall>r\<in>set rows2. is_row r ''c1'' t2 (PStr balance_reply) ''llm'')
    \<and> (\<forall>x\<in>set (es2 @ ms2). is_entry x ''c1'' t2 (PStr balance_reply) ''llm'')
    \<and> (rows2 \<noteq> [] \<or> es2 @ ms2 \<noteq> [])
    \<and> t1 \<le> t2)
   \<and> map row_source
        (transcripts_table (snd (process_call (default_env [faq_flow]) received_world demo_call)))
       = [Some ''asr'', Some ''llm'']
   \<and> dict_get (fst (process_call (default_env [faq_flow]) received_world demo_call)) ''reply''
       = PStr ''Your balance is $42''"
proof -
  let ?e = "default_env [faq_flow]"
  have run: "process_call ?e received_world demo_call =
      (fst (process_call ?e received_world demo_call),
       snd (process_call ?e received_world demo_call))"
    by simp
  have mono: "\<forall>i j. i \<le> j \<longrightarrow> clock received_world i \<le> clock received_world j"
    by (simp add: received_world_def idle_world_def demo_clock_mono)
  have v: "call_id demo_call = ''c1''"
    "stage_transcribe ?e (media_url demo_call) =
       ''stubbed transcript: hello I want my account balance''"
    "dict_get_default (stage_respond ?e ''stubbed transcript: hello I want my account balance'')
       ''reply'' (PStr []) = PStr balance_reply"
    by code_simp+
  have x: "map row_source (transcripts_table (snd (process_call ?e received_world demo_call)))
       = [Some ''asr'', Some ''llm'']"
    "dict_get (fst (process_call ?e received_world demo_call)) ''reply''
       = PStr ''Your balance is $42''"
    by code_simp+
  show ?thesis
    using process_call_transcripts [OF run mono] unfolding v by (simp only: x simp_thms)
qed

section \<open>Final status\<close>

text \<open>
  Claim C1, at an input where the code departs from it. The webhook has stored the session
  of the call with status \<open>received\<close>, and the run, with the repository's default
  components, does not escalate. The final patch of \<open>process_call\<close> then sets the status
  to \<open>completed\<close>, and that is what a lookup of the session returns after the run; the
  claim has \<open>answered\<close> there, the word that \<open>_stub_process_call\<close>, the webhook module's
  own stand-in for the pipeline, writes at the same place. A run that escalates ends with
  \<open>escalated\<close>, as the claim has it.
\<close>

theorem process_call_status_completed:
  "dict_get (fst (process_call (default_env []) received_world demo_call)) ''escalated''
     = PBool False
   \<and> session_field received_world ''c1'' ''status'' = PStr ''received''
   \<and> session_field (snd (process_call (default_env []) received_world demo_call)) ''c1'' ''status''
     = PStr ''completed''
   \<and> dict_get (fst (process_call agent_env received_world recorded_call)) ''escalated''
     = PBool True
   \<and> session_field (snd (process_call agent_env received_world recorded_call)) ''c1'' ''status''
     = PStr ''escalated''"
  by code_simp

section \<open>Escalation payload\<close>

text \<open>
  Claim C7. The \<open>agent\<close> field of the summary is a payload exactly when the final
  escalation flag is true: it is then the bridge's payload, or the substitute payload
  \<open>escalation_requested_but_no_bridge\<close> when the bridge cannot be imported or raises; with
  a false flag the step is skipped and the field is \<open>None\<close>. The same value is in the
  \<open>agent\<close> field of the session that the final patch stores.
\<close>

theorem process_call_escalation_payload:
  assumes "process_call e w payload = (summary, w')"
  shows "dict_get summary ''agent'' =
      (if truthy (dict_get summary ''escalated'') then
         (case media_bridge e of
            Some bridge \<Rightarrow>
              (case bridge (call_id payload) of
                 Inr agent_payload \<Rightarrow> PDict agent_payload
               | Inl ex \<Rightarrow> PDict [(''note'', PStr ''escalation_requested_but_no_bridge'')])
          | None \<Rightarrow> PDict [(''note'', PStr ''escalation_requested_but_no_bridge'')])
       else PNone)
    \<and> (dict_get summary ''agent'' \<noteq> PNone \<longleftrightarrow> truthy (dict_get summary ''escalated''))
    \<and> (\<exists>s. (redis_sessions w' (call_id payload) = Some s
               \<or> INMEM_SESSIONS w' (call_id payload) = Some s)
            \<and> dict_get s ''agent'' = dict_get summary ''agent'')
    \<and> (\<not> redis_client w \<or> faults w = [] \<longrightarrow>
          session_field w' (call_id payload) ''agent'' = dict_get summary ''agent'')"
proof -
  from assms have s: "summary = fst (process_call e w payload)"
    and w': "w' = snd (process_call e w payload)"
    by simp_all
  have esc: "dict_get summary ''escalated'' = snd (overridden e payload)"
    and ag: "dict_get summary ''agent'' =
      stage_escalate e (snd (overridden e payload)) (call_id payload)"
    by (simp_all add: s process_call_summary dict_get_def)
  have a: "dict_get summary ''agent'' =
      (if truthy (dict_get summary ''escalated'') then
         (case media_bridge e of
            Some bridge \<Rightarrow>
              (case bridge (call_id payload) of
                 Inr agent_payload \<Rightarrow> PDict agent_payload
               | Inl ex \<Rightarrow> PDict [(''note'', PStr ''escalation_requested_but_no_bridge'')])
          | None \<Rightarrow> PDict [(''note'', PStr ''escalation_requested_but_no_bridge'')])
       else PNone)"
    unfolding ag esc by (simp add: stage_escalate_def)
  have b: "dict_get summary ''agent'' \<noteq> PNone \<longleftrightarrow> truthy (dict_get summary ''escalated'')"
    unfolding ag esc by (simp add: stage_escalate_def split: option.splits sum.splits)
  have c: "\<exists>s. (redis_sessions w' (call_id payload) = Some s
               \<or> INMEM_SESSIONS w' (call_id payload) = Some s)
            \<and> dict_get s ''agent'' = dict_get summary ''agent''"
    using process_call_stored [of e w payload] unfolding w' ag by blast
  have d: "session_field w' (call_id payload) ''agent'' = dict_get summary ''agent''"
    if "\<not> redis_client w \<or> faults w = []"
    using process_call_then_get_field [OF that, of e payload] unfolding w' ag session_field_def
    by auto
  from a b c d show ?thesis by blast
qed

text \<open>
  A caller who asks for an agent gets the bridge's payload, in the summary and in the
  session; without a bridge the substitute payload is used; a run without escalation has
  no payload.
\<close>

theorem process_call_escalation_payload_witness:
  "dict_get (fst (process_call agent_env received_world recorded_call)) ''agent'' =
     PDict [(''webrtc_url'', PStr ''/agent?call_id=c1''),
            (''note'', PStr ''placeholder (implement real WebRTC bridge)'')]
   \<and> session_field (snd (process_call agent_env received_world recorded_call)) ''c1'' ''agent'' =
     PDict [(''webrtc_url'', PStr ''/agent?call_id=c1''),
            (''note'', PStr ''placeholder (implement real WebRTC bridge)'')]
   \<and> dict_get (fst (process_call (agent_env\<lparr>media_bridge := None\<rparr>) received_world
         recorded_call)) ''agent'' =
     PDict [(''note'', PStr ''escalation_requested_but_no_bridge'')]
   \<and> dict_get (fst (process_call (default_env []) received_world demo_call)) ''agent'' = PNone
   \<and> session_field (snd (process_call (default_env []) received_world demo_call)) ''c1''
         ''agent'' = PNone"
proof -
  let ?e3 = "agent_env\<lparr>media_bridge := None\<rparr>"
  have r1: "process_call agent_env received_world recorded_call =
      (fst (process_call agent_env received_world recorded_call),
       snd (process_call agent_env received_world recorded_call))"
    and r2: "process_call ?e3 received_world recorded_call =
      (fst (process_call ?e3 received_world recorded_call),
       snd (process_call ?e3 received_world recorded_call))"
    and r3: "process_call (default_env []) received_world demo_call =
      (fst (process_call (default_env []) received_world demo_call),
       snd (process_call (default_env []) received_world demo_call))"
    by simp_all
  have v: "\<not> redis_client received_world" "call_id demo_call = ''c1''"
    "call_id recorded_call = ''c1''"
    "truthy (dict_get (fst (process_call agent_env received_world recorded_call)) ''escalated'')"
    "truthy (dict_get (fst (process_call ?e3 received_world recorded_call)) ''escalated'')"
    "\<not> truthy (dict_get (fst (process_call (default_env []) received_world demo_call))
        ''escalated'')"
    by code_simp+
  have b: "media_bridge agent_env = Some (\<lambda>cid. Inr (escalate_to_agent cid))"
    "media_bridge ?e3 = None"
    by (simp_all add: agent_env_def default_env_def)
  have p: "escalate_to_agent ''c1'' =
      [(''webrtc_url'', PStr ''/agent?call_id=c1''),
       (''note'', PStr ''placeholder (implement real WebRTC bridge)'')]"
    by (simp add: escalate_to_agent_def)
  show ?thesis
    using process_call_escalation_payload [OF r1] process_call_escalation_payload [OF r2]
      process_call_escalation_payload [OF r3]
    by (simp add: v b p)
qed

section \<open>Resilience\<close>

lemma summary_fields:
  "map fst (fst (process_call e w payload)) =
     [''call_id'', ''intent'', ''reply'', ''media_out'', ''escalated'', ''agent'']"
  "dict_get (fst (process_call e w payload)) ''call_id'' = PStr (call_id payload)"
  "dict_get (fst (process_call e w payload)) ''intent'' = dict_get (responded e payload) ''intent''"
  "dict_get (fst (process_call e w payload)) ''reply'' = fst (overridden e payload)"
  "dict_get (fst (process_call e w payload)) ''media_out'' =
     stage_synthesize e (fst (overridden e payload)) (call_id payload)"
  "dict_get (fst (process_call e w payload)) ''escalated'' = snd (overridden e payload)"
  "dict_get (fst (process_call e w payload)) ''agent'' =
     stage_escalate e (snd (overridden e payload)) (call_id payload)"
  by (simp_all add: process_call_summary dict_get_def)

text \<open>
  The run depends on the environment only through what its five steps compute, so a client
  may be exchanged for one that computes the same.
\<close>

lemma process_call_cong:
  assumes "stage_transcribe e' (media_url p) = stage_transcribe e (media_url p)"
    and "stage_respond e' (stage_transcribe e (media_url p)) =
           stage_respond e (stage_transcribe e (media_url p))"
    and "\<And>i t r x. stage_flow e' i t r x = stage_flow e i t r x"
    and "\<And>r c. stage_synthesize e' r c = stage_synthesize e r c"
    and "\<And>x c. stage_escalate e' x c = stage_escalate e x c"
  shows "process_call e' w p = process_call e w p"
  unfolding process_call_def using assms by simp

lemma stage_others_asr [simp]:
  "stage_respond (e\<lparr>asr := a\<rparr>) t = stage_respond e t"
  "stage_flow (e\<lparr>asr := a\<rparr>) i t r x = stage_flow e i t r x"
  "stage_synthesize (e\<lparr>asr := a\<rparr>) r c = stage_synthesize e r c"
  "stage_escalate (e\<lparr>asr := a\<rparr>) x c = stage_escalate e x c"
  by (simp_all add: stage_respond_def stage_flow_def stage_synthesize_def stage_escalate_def
      maybe_get_flow_for_call_def split: option.splits sum.splits)

lemma stage_others_llm [simp]:
  "stage_transcribe (e\<lparr>llm := l\<rparr>) u = stage_transcribe e u"
  "stage_flow (e\<lparr>llm := l\<rparr>) i t r x = stage_flow e i t r x"
  "stage_synthesize (e\<lparr>llm := l\<rparr>) r c = stage_synthesize e r c"
  "stage_escalate (e\<lparr>llm := l\<rparr>) x c = stage_escalate e x c"
  by (simp_all add: stage_transcribe_def stage_flow_def stage_synthesize_def stage_escalate_def
      maybe_get_flow_for_call_def split: option.splits sum.splits)

lemma stage_others_list_flows [simp]:
  "stage_transcribe (e\<lparr>list_flows := l\<rparr>) u = stage_transcribe e u"
  "stage_respond (e\<lparr>list_flows := l\<rparr>) t = stage_respond e t"
  "stage_synthesize (e\<lparr>list_flows := l\<rparr>) r c = stage_synthesize e r c"
  "stage_escalate (e\<lparr>list_flows := l\<rparr>) x c = stage_escalate e x c"
  by (simp_all add: stage_transcribe_def stage_respond_def stage_synthesize_def
      stage_escalate_def split: option.splits sum.splits)

lemma run_without_asr:
  assumes "asr e = None"
  shows "process_call e w p =
     process_call (e\<lparr>asr := Some (\<lambda>url. Inr ''stubbed transcript (no ASR client available)'')\<rparr>) w p"
  by (rule process_call_cong [symmetric]) (simp_all add: assms stage_transcribe_def)

lemma run_asr_raising:
  assumes "asr e = Some client" "client (media_url p) = Inl Exception"
  shows "process_call e w p =
     process_call (e\<lparr>asr := Some (\<lambda>url. Inr ''stubbed transcript: could not run ASR'')\<rparr>) w p"
  by (rule process_call_cong [symmetric]) (simp_all add: assms stage_transcribe_def)

lemma run_without_llm:
  assumes "llm e = None"
  shows "process_call e w p =
     process_call (e\<lparr>llm := Some (\<lambda>t. Inr (orchestrator_fallback (unicode_lower e) t))\<rparr>) w p"
  by (rule process_call_cong [symmetric]) (simp_all add: assms stage_respond_def)

lemma run_llm_raising:
  assumes "llm e = Some client" "client (stage_transcribe e (media_url p)) = Inl Exception"
  shows "process_call e w p =
     process_call (e\<lparr>llm := Some (\<lambda>t. Inr [(''intent'', PStr ''unknown''),
        (''reply'', PStr ''Sorry, I couldn't process that right now.'')])\<rparr>) w p"
  by (rule process_call_cong [symmetric]) (simp_all add: assms stage_respond_def)

lemma run_list_flows_raising:
  assumes "list_flows e = Inl Exception"
  shows "process_call e w p = process_call (e\<lparr>list_flows := FLOW_STORE e\<rparr>) w p"
proof (rule process_call_cong [symmetric])
  have "maybe_get_flow_for_call (e\<lparr>list_flows := FLOW_STORE e\<rparr>) = maybe_get_flow_for_call e"
    using assms by (simp add: maybe_get_flow_for_call_def split: sum.splits)
  then show "stage_flow (e\<lparr>list_flows := FLOW_STORE e\<rparr>) i t r x = stage_flow e i t r x" for i t r x
    by (simp add: stage_flow_def split: option.splits)
qed simp_all

text \<open>
  The transcript records kept for a call: its rows in the table and its entries in the two
  lists of the session store.
\<close>

definition kept :: "world \<Rightarrow> string \<Rightarrow> nat" where
  "kept w cid =
     length (filter (\<lambda>r. row_call_id r = cid) (transcripts_table w))
     + length (redis_list w cid) + length (inmem_list w cid)"

lemma saved_once_kept:
  assumes "saved_once w w' cid k c src"
  shows "kept w cid < kept w' cid"
proof -
  from assms obtain rows es ms where
    t: "transcripts_table w' = transcripts_table w @ rows"
    and l: "redis_list w' cid = redis_list w cid @ es" "inmem_list w' cid = inmem_list w cid @ ms"
    and r: "\<forall>r\<in>set rows. is_row r cid (clock w k) c src"
    and n: "rows \<noteq> [] \<or> es @ ms \<noteq> []"
    unfolding saved_once_def by blast
  from r have "filter (\<lambda>r. row_call_id r = cid) rows = rows"
    by (auto simp: is_row_def intro: filter_True)
  with t l n show ?thesis
    by (cases rows; cases es; cases ms) (simp_all add: kept_def)
qed

lemma process_call_kept:
  "kept w (call_id payload) + 2 \<le> kept (snd (process_call e w payload)) (call_id payload)"
proof -
  let ?cid = "call_id payload"
  let ?asr = "PStr (stage_transcribe e (media_url payload))"
  let ?reply = "dict_get_default (responded e payload) ''reply'' (PStr [])"
  let ?w1 = "save_transcript_entry w ?cid ?asr ''asr''"
  let ?w2 = "save_transcript_entry ?w1 ?cid ?reply ''llm''"
  have w2: "before_patch e w payload = ?w2"
    by (simp add: before_patch_def)
  have "kept w ?cid < kept ?w1 ?cid"
    using save_transcript_entry_once [of w ?cid ?asr "''asr''"] saved_once_kept by blast
  moreover have "kept ?w1 ?cid < kept ?w2 ?cid"
    using save_transcript_entry_once [of ?w1 ?cid ?reply "''llm''"] saved_once_kept by blast
  moreover have "kept (snd (process_call e w payload)) ?cid = kept ?w2 ?cid"
    by (simp add: kept_def process_call_lists w2)
  ultimately show ?thesis by simp
qed

text \<open>The values after the flow step when no flow is obtained or the engine raises.\<close>

lemma flow_failed_overridden:
  assumes "flow_engine e = Some engine"
    and "maybe_get_flow_for_call e = None
      \<or> (\<exists>flow. maybe_get_flow_for_call e = Some flow
            \<and> engine flow (dict_get (responded e payload) ''intent'')
                  (stage_transcribe e (media_url payload)) = Inl Exception)"
  shows "overridden e payload =
     (dict_get_default (responded e payload) ''reply'' (PStr []),
      PBool (truthy (dict_get_default (responded e payload) ''escalate'' (PBool False))))"
  using assms by (auto simp: overridden_def stage_flow_def)

lemma all_fail_summary:
  assumes a: "asr e = Some a" "a (media_url payload) = Inl Exception"
    and l: "llm e = Some l" "l ''stubbed transcript: could not run ASR'' = Inl Exception"
    and f: "\<forall>engine flow. flow_engine e = Some engine \<longrightarrow>
          engine flow (PStr ''unknown'') ''stubbed transcript: could not run ASR'' = Inl Exception"
    and t: "\<forall>client. tts e = Some client \<longrightarrow>
          client (PStr ''Sorry, I couldn't process that right now.'') (call_id payload)
            = Inl Exception"
  shows "fst (process_call e w payload) =
     [(''call_id'', PStr (call_id payload)), (''intent'', PStr ''unknown''),
      (''reply'', PStr ''Sorry, I couldn't process that right now.''),
      (''media_out'', PNone), (''escalated'', PBool False), (''agent'', PNone)]"
proof -
  from a have tr: "stage_transcribe e (media_url payload) = ''stubbed transcript: could not run ASR''"
    by (simp add: stage_transcribe_def)
  from l tr have re: "responded e payload =
      [(''intent'', PStr ''unknown''), (''reply'', PStr ''Sorry, I couldn't process that right now.'')]"
    by (simp add: responded_def stage_respond_def)
  from f have ov: "overridden e payload =
      (PStr ''Sorry, I couldn't process that right now.'', PBool False)"
    unfolding overridden_def re tr
    by (auto simp: stage_flow_def dict_get_def dict_get_default_def split: option.splits)
  from t have sy: "stage_synthesize e (PStr ''Sorry, I couldn't process that right now.'')
      (call_id payload) = PNone"
    by (auto simp: stage_synthesize_def split: option.splits)
  show ?thesis
    unfolding process_call_summary ov re
    by (simp add: sy stage_escalate_def dict_get_def)
qed

lemma no_adapter_summary:
  assumes "asr e = None" "llm e = None" "flow_engine e = None" "tts e = None"
  shows "fst (process_call e w payload) =
     [(''call_id'', PStr (call_id payload)), (''intent'', PStr ''unknown''),
      (''reply'', PStr ''I didn't get that. Can you repeat?''),
      (''media_out'', PNone), (''escalated'', PBool False), (''agent'', PNone)]"
proof -
  have fb: "orchestrator_fallback u ''stubbed transcript (no ASR client available)'' =
      [(''intent'', PStr ''unknown''), (''reply'', PStr ''I didn't get that. Can you repeat?'')]" for u
  proof -
    have a: "is_ascii ''stubbed transcript (no ASR client available)''"
      by code_simp
    have "orchestrator_fallback ascii_only ''stubbed transcript (no ASR client available)'' =
      [(''intent'', PStr ''unknown''), (''reply'', PStr ''I didn't get that. Can you repeat?'')]"
      by code_simp
    moreover have "lower u ''stubbed transcript (no ASR client available)'' =
        lower ascii_only ''stubbed transcript (no ASR client available)''"
      using a by (simp add: lower_def)
    ultimately show ?thesis
      by (simp add: orchestrator_fallback_def)
  qed
  from assms have tr: "stage_transcribe e (media_url payload) =
      ''stubbed transcript (no ASR client available)''"
    by (simp add: stage_transcribe_def)
  from assms tr have re: "responded e payload =
      [(''intent'', PStr ''unknown''), (''reply'', PStr ''I didn't get that. Can you repeat?'')]"
    by (simp add: responded_def stage_respond_def fb)
  from assms have ov: "overridden e payload =
      (PStr ''I didn't get that. Can you repeat?'', PBool False)"
    unfolding overridden_def re tr
    by (simp add: stage_flow_def dict_get_def dict_get_default_def)
  from assms have sy: "stage_synthesize e (PStr ''I didn't get that. Can you repeat?'')
      (call_id payload) = PNone"
    by (simp add: stage_synthesize_def)
  show ?thesis
    unfolding process_call_summary ov re
    by (simp add: sy stage_escalate_def dict_get_def)
qed

text \<open>
  Claim C5. \<open>process_call\<close> has a summary for every environment, state and payload: in
  the code every call that can raise sits in a \<open>try\<close> whose handler supplies a value, and
  the model has a branch for each of them. Whatever the clients and the stores do, the
  summary carries the call identifier and the six fields, the final patch is stored for
  the call with the summary's values and a status that is no longer \<open>received\<close>, and both
  transcript entries are kept in the table or, failing that, in the session store. Each failure is replaced by its fallback:
  \<^item> a missing or raising Transcriber by its stub transcript: the run is the run of a
    Transcriber that returned that text;
  \<^item> a missing Responder by the inline rule table and a raising one by the intent
    \<open>unknown\<close> with an apology: the run is the run of a Responder that returned that;
  \<^item> a raising \<open>list_flows\<close> by the in-memory flow store;
  \<^item> a flow engine that raises, or finds no flow, by the Responder's own reply and
    escalation flag;
  \<^item> a raising Synthesizer by no media reference;
  \<^item> a missing or raising bridge, when the run escalates, by the substitute payload.

  When the Transcriber, the Responder, the flow engine and the Synthesizer all raise, the
  summary holds the fallback values of the handlers; when none of them exists, it holds
  those of the inline rule table.
\<close>

theorem process_call_resilient:
  assumes "process_call e w payload = (summary, w')"
  shows "map fst summary = [''call_id'', ''intent'', ''reply'', ''media_out'', ''escalated'', ''agent'']
    \<and> dict_get summary ''call_id'' = PStr (call_id payload)
    \<and> (\<exists>s. (redis_sessions w' (call_id payload) = Some s
               \<or> INMEM_SESSIONS w' (call_id payload) = Some s)
            \<and> (dict_get s ''status'' = PStr ''escalated''
                 \<longleftrightarrow> truthy (dict_get summary ''escalated''))
            \<and> dict_get s ''status'' \<noteq> PStr ''received''
            \<and> dict_get s ''last_intent'' = dict_get summary ''intent''
            \<and> dict_get s ''last_reply'' = dict_get summary ''reply''
            \<and> dict_get s ''media_out'' = dict_get summary ''media_out''
            \<and> dict_get s ''agent'' = dict_get summary ''agent'')
    \<and> kept w (call_id payload) + 2 \<le> kept w' (call_id payload)
    \<and> (asr e = None \<longrightarrow>
          process_call e w payload =
            process_call
              (e\<lparr>asr := Some (\<lambda>url. Inr ''stubbed transcript (no ASR client available)'')\<rparr>)
              w payload)
    \<and> ((\<exists>client. asr e = Some client \<and> client (media_url payload) = Inl Exception) \<longrightarrow>
          process_call e w payload =
            process_call (e\<lparr>asr := Some (\<lambda>url. Inr ''stubbed transcript: could not run ASR'')\<rparr>)
              w payload)
    \<and> (llm e = None \<longrightarrow>
          process_call e w payload =
            process_call (e\<lparr>llm := Some (\<lambda>t. Inr (orchestrator_fallback (unicode_lower e) t))\<rparr>)
              w payload)
    \<and> ((\<exists>client. llm e = Some client
            \<and> client (stage_transcribe e (media_url payload)) = Inl Exception) \<longrightarrow>
          dict_get summary ''intent'' = PStr ''unknown''
          \<and> process_call e w payload =
               process_call
                 (e\<lparr>llm := Some (\<lambda>t. Inr [(''intent'', PStr ''unknown''),
                     (''reply'', PStr ''Sorry, I couldn't process that right now.'')])\<rparr>)
                 w payload)
    \<and> (list_flows e = Inl Exception \<longrightarrow>
          process_call e w payload = process_call (e\<lparr>list_flows := FLOW_STORE e\<rparr>) w payload)
    \<and> ((\<exists>engine. flow_engine e = Some engine
            \<and> (maybe_get_flow_for_call e = None
                \<or> (\<exists>flow. maybe_get_flow_for_call e = Some flow
                      \<and> engine flow (dict_get summary ''intent'')
                            (stage_transcribe e (media_url payload)) = Inl Exception))) \<longrightarrow>
          dict_get summary ''reply'' =
            dict_get_default (stage_respond e (stage_transcribe e (media_url payload)))
              ''reply'' (PStr [])
          \<and> dict_get summary ''escalated'' =
            PBool (truthy (dict_get_default
              (stage_respond e (stage_transcribe e (media_url payload)))
              ''escalate'' (PBool False))))
    \<and> ((\<exists>client. tts e = Some client
            \<and> client (dict_get summary ''reply'') (call_id payload) = Inl Exception) \<longrightarrow>
          dict_get summary ''media_out'' = PNone)
    \<and> (truthy (dict_get summary ''escalated'')
         \<and> (media_bridge e = None
              \<or> (\<exists>bridge. media_bridge e = Some bridge
                    \<and> bridge (call_id payload) = Inl Exception)) \<longrightarrow>
          dict_get summary ''agent'' =
            PDict [(''note'', PStr ''escalation_requested_but_no_bridge'')])
    \<and> ((\<exists>a. asr e = Some a \<and> a (media_url payload) = Inl Exception)
         \<and> (\<exists>l. llm e = Some l \<and> l ''stubbed transcript: could not run ASR'' = Inl Exception)
         \<and> (\<forall>engine flow. flow_engine e = Some engine \<longrightarrow>
               engine flow (PStr ''unknown'') ''stubbed transcript: could not run ASR''
                 = Inl Exception)
         \<and> (\<forall>client. tts e = Some client \<longrightarrow>
               client (PStr ''Sorry, I couldn't process that right now.'') (call_id payload)
                 = Inl Exception)
        \<longrightarrow> summary =
            [(''call_id'', PStr (call_id payload)), (''intent'', PStr ''unknown''),
             (''reply'', PStr ''Sorry, I couldn't process that right now.''),
             (''media_out'', PNone), (''escalated'', PBool False), (''agent'', PNone)])
    \<and> (asr e = None \<and> llm e = None \<and> flow_engine e = None \<and> tts e = None
        \<longrightarrow> summary =
            [(''call_id'', PStr (call_id payload)), (''intent'', PStr ''unknown''),
             (''reply'', PStr ''I didn't get that. Can you repeat?''),
             (''media_out'', PNone), (''escalated'', PBool False), (''agent'', PNone)])"
proof -
  from assms have s: "summary = fst (process_call e w payload)"
    and w': "w' = snd (process_call e w payload)"
    by simp_all
  have st: "PStr (final_status e payload) = PStr ''escalated''
      \<longleftrightarrow> truthy (snd (overridden e payload))"
    "PStr (final_status e payload) \<noteq> PStr ''received''"
    by (simp_all add: final_status_def)
  have c1: "map fst summary =
      [''call_id'', ''intent'', ''reply'', ''media_out'', ''escalated'', ''agent'']"
    and c2: "dict_get summary ''call_id'' = PStr (call_id payload)"
    by (simp_all add: s summary_fields)
  have c3: "\<exists>s. (redis_sessions w' (call_id payload) = Some s
               \<or> INMEM_SESSIONS w' (call_id payload) = Some s)
            \<and> (dict_get s ''status'' = PStr ''escalated''
                 \<longleftrightarrow> truthy (dict_get summary ''escalated''))
            \<and> dict_get s ''status'' \<noteq> PStr ''received''
            \<and> dict_get s ''last_intent'' = dict_get summary ''intent''
            \<and> dict_get s ''last_reply'' = dict_get summary ''reply''
            \<and> dict_get s ''media_out'' = dict_get summary ''media_out''
            \<and> dict_get s ''agent'' = dict_get summary ''agent''"
    using process_call_stored [of e w payload] st unfolding w' s summary_fields
    by metis
  have c4: "kept w (call_id payload) + 2 \<le> kept w' (call_id payload)"
    unfolding w' by (rule process_call_kept)
  have c5: "asr e = None \<longrightarrow>
          process_call e w payload =
            process_call
              (e\<lparr>asr := Some (\<lambda>url. Inr ''stubbed transcript (no ASR client available)'')\<rparr>)
              w payload"
    using run_without_asr [of e w payload] by blast
  have c6: "(\<exists>client. asr e = Some client \<and> client (media_url payload) = Inl Exception) \<longrightarrow>
          process_call e w payload =
            process_call (e\<lparr>asr := Some (\<lambda>url. Inr ''stubbed transcript: could not run ASR'')\<rparr>)
              w payload"
    using run_asr_raising [of e _ payload w] by blast
  have c7: "llm e = None \<longrightarrow>
          process_call e w payload =
            process_call (e\<lparr>llm := Some (\<lambda>t. Inr (orchestrator_fallback (unicode_lower e) t))\<rparr>)
              w payload"
    using run_without_llm [of e w payload] by blast
  have c8: "(\<exists>client. llm e = Some client
            \<and> client (stage_transcribe e (media_url payload)) = Inl Exception) \<longrightarrow>
          dict_get summary ''intent'' = PStr ''unknown''
          \<and> process_call e w payload =
               process_call
                 (e\<lparr>llm := Some (\<lambda>t. Inr [(''intent'', PStr ''unknown''),
                     (''reply'', PStr ''Sorry, I couldn't process that right now.'')])\<rparr>)
                 w payload"
  proof (intro impI conjI)
    assume "\<exists>client. llm e = Some client
        \<and> client (stage_transcribe e (media_url payload)) = Inl Exception"
    then obtain client where l: "llm e = Some client"
      "client (stage_transcribe e (media_url payload)) = Inl Exception"
      by blast
    then show "dict_get summary ''intent'' = PStr ''unknown''"
      unfolding s summary_fields by (simp add: responded_def stage_respond_def dict_get_def)
    from l show "process_call e w payload =
        process_call
          (e\<lparr>llm := Some (\<lambda>t. Inr [(''intent'', PStr ''unknown''),
              (''reply'', PStr ''Sorry, I couldn't process that right now.'')])\<rparr>)
          w payload"
      by (rule run_llm_raising)
  qed
  have c9: "list_flows e = Inl Exception \<longrightarrow>
          process_call e w payload = process_call (e\<lparr>list_flows := FLOW_STORE e\<rparr>) w payload"
    using run_list_flows_raising [of e w payload] by blast
  have c10: "(\<exists>engine. flow_engine e = Some engine
            \<and> (maybe_get_flow_for_call e = None
                \<or> (\<exists>flow. maybe_get_flow_for_call e = Some flow
                      \<and> engine flow (dict_get summary ''intent'')
                            (stage_transcribe e (media_url payload)) = Inl Exception))) \<longrightarrow>
          dict_get summary ''reply'' =
            dict_get_default (stage_respond e (stage_transcribe e (media_url payload)))
              ''reply'' (PStr [])
          \<and> dict_get summary ''escalated'' =
            PBool (truthy (dict_get_default
              (stage_respond e (stage_transcribe e (media_url payload)))
              ''escalate'' (PBool False)))"
    unfolding s summary_fields
    using flow_failed_overridden [of e _ payload]
    by (auto simp: responded_def)
  have c11: "(\<exists>client. tts e = Some client
            \<and> client (dict_get summary ''reply'') (call_id payload) = Inl Exception) \<longrightarrow>
          dict_get summary ''media_out'' = PNone"
    unfolding s summary_fields by (auto simp: stage_synthesize_def)
  have c12: "truthy (dict_get summary ''escalated'')
         \<and> (media_bridge e = None
              \<or> (\<exists>bridge. media_bridge e = Some bridge
                    \<and> bridge (call_id payload) = Inl Exception)) \<longrightarrow>
          dict_get summary ''agent'' =
            PDict [(''note'', PStr ''escalation_requested_but_no_bridge'')]"
    unfolding s summary_fields by (auto simp: stage_escalate_def)
  have c13: "(\<exists>a. asr e = Some a \<and> a (media_url payload) = Inl Exception)
         \<and> (\<exists>l. llm e = Some l \<and> l ''stubbed transcript: could not run ASR'' = Inl Exception)
         \<and> (\<forall>engine flow. flow_engine e = Some engine \<longrightarrow>
               engine flow (PStr ''unknown'') ''stubbed transcript: could not run ASR''
                 = Inl Exception)
         \<and> (\<forall>client. tts e = Some client \<longrightarrow>
               client (PStr ''Sorry, I couldn't process that right now.'') (call_id payload)
                 = Inl Exception)
        \<longrightarrow> summary =
            [(''call_id'', PStr (call_id payload)), (''intent'', PStr ''unknown''),
             (''reply'', PStr ''Sorry, I couldn't process that right now.''),
             (''media_out'', PNone), (''escalated'', PBool False), (''agent'', PNone)]"
  proof
    assume h: "(\<exists>a. asr e = Some a \<and> a (media_url payload) = Inl Exception)
         \<and> (\<exists>l. llm e = Some l \<and> l ''stubbed transcript: could not run ASR'' = Inl Exception)
         \<and> (\<forall>engine flow. flow_engine e = Some engine \<longrightarrow>
               engine flow (PStr ''unknown'') ''stubbed transcript: could not run ASR''
                 = Inl Exception)
         \<and> (\<forall>client. tts e = Some client \<longrightarrow>
               client (PStr ''Sorry, I couldn't process that right now.'') (call_id payload)
                 = Inl Exception)"
    then obtain a l where "asr e = Some a" "a (media_url payload) = Inl Exception"
      "llm e = Some l" "l ''stubbed transcript: could not run ASR'' = Inl Exception"
      by blast
    with h show "summary =
            [(''call_id'', PStr (call_id payload)), (''intent'', PStr ''unknown''),
             (''reply'', PStr ''Sorry, I couldn't process that right now.''),
             (''media_out'', PNone), (''escalated'', PBool False), (''agent'', PNone)]"
      unfolding s by (intro all_fail_summary) blast+
  qed
  have c14: "asr e = None \<and> llm e = None \<and> flow_engine e = None \<and> tts e = None
        \<longrightarrow> summary =
            [(''call_id'', PStr (call_id payload)), (''intent'', PStr ''unknown''),
             (''reply'', PStr ''I didn't get that. Can you repeat?''),
             (''media_out'', PNone), (''escalated'', PBool False), (''agent'', PNone)]"
    unfolding s using no_adapter_summary [of e w payload] by blast
  from c1 c2 c3 c4 c5 c6 c7 c8 c9 c10 c11 c12 c13 c14 show ?thesis
    by (intro conjI)
qed

text \<open>
  Every client raises, the bridge is missing and every store operation fails: the run
  still ends with the fallback summary, a stored patch and both transcript entries, and it
  is the run of a Transcriber that returned the stub transcript. Without any client the
  inline rules answer. A raising flow engine leaves the Responder's reply, a raising
  Synthesizer leaves no media reference, and a raising bridge leaves the substitute
  payload.
\<close>

theorem process_call_resilient_witness:
  "fst (process_call failing_env failing_world recorded_call) =
     [(''call_id'', PStr ''c1''), (''intent'', PStr ''unknown''),
      (''reply'', PStr ''Sorry, I couldn't process that right now.''),
      (''media_out'', PNone), (''escalated'', PBool False), (''agent'', PNone)]
   \<and> (\<exists>s. (redis_sessions (snd (process_call failing_env failing_world recorded_call)) ''c1''
              = Some s
            \<or> INMEM_SESSIONS (snd (process_call failing_env failing_world recorded_call)) ''c1''
              = Some s)
         \<and> dict_get s ''status'' \<noteq> PStr ''received''
         \<and> dict_get s ''last_reply'' = PStr ''Sorry, I couldn't process that right now.'')
   \<and> kept failing_world ''c1'' + 2
        \<le> kept (snd (process_call failing_env failing_world recorded_call)) ''c1''
   \<and> process_call failing_env failing_world recorded_call =
        process_call
          (failing_env\<lparr>asr := Some (\<lambda>url. Inr ''stubbed transcript: could not run ASR'')\<rparr>)
          failing_world recorded_call
   \<and> process_call failing_env failing_world recorded_call =
        process_call
          (failing_env\<lparr>llm := Some (\<lambda>t. Inr [(''intent'', PStr ''unknown''),
              (''reply'', PStr ''Sorry, I couldn't process that right now.'')])\<rparr>)
          failing_world recorded_call
   \<and> process_call failing_env failing_world recorded_call =
        process_call (failing_env\<lparr>list_flows := FLOW_STORE failing_env\<rparr>)
          failing_world recorded_call
   \<and> fst (process_call bare_env received_world demo_call) =
     [(''call_id'', PStr ''c1''), (''intent'', PStr ''unknown''),
      (''reply'', PStr ''I didn't get that. Can you repeat?''),
      (''media_out'', PNone), (''escalated'', PBool False), (''agent'', PNone)]
   \<and> process_call bare_env received_world demo_call =
        process_call
          (bare_env\<lparr>asr := Some (\<lambda>url. Inr ''stubbed transcript (no ASR client available)'')\<rparr>)
          received_world demo_call
   \<and> process_call bare_env received_world demo_call =
        process_call
          (bare_env\<lparr>llm := Some (\<lambda>t. Inr (orchestrator_fallback (unicode_lower bare_env) t))\<rparr>)
          received_world demo_call
   \<and> dict_get (fst (process_call flaky_env received_world demo_call)) ''reply''
        = PStr balance_reply
   \<and> dict_get (fst (process_call flaky_env received_world demo_call)) ''escalated''
        = PBool False
   \<and> dict_get (fst (process_call flaky_env received_world demo_call)) ''media_out'' = PNone
   \<and> dict_get (fst (process_call unbridged_env received_world recorded_call)) ''agent'' =
        PDict [(''note'', PStr ''escalation_requested_but_no_bridge'')]"
proof -
  have r1: "process_call failing_env failing_world recorded_call =
      (fst (process_call failing_env failing_world recorded_call),
       snd (process_call failing_env failing_world recorded_call))"
    and r2: "process_call bare_env received_world demo_call =
      (fst (process_call bare_env received_world demo_call),
       snd (process_call bare_env received_world demo_call))"
    and r3: "process_call flaky_env received_world demo_call =
      (fst (process_call flaky_env received_world demo_call),
       snd (process_call flaky_env received_world demo_call))"
    and r4: "process_call unbridged_env received_world recorded_call =
      (fst (process_call unbridged_env received_world recorded_call),
       snd (process_call unbridged_env received_world recorded_call))"
    by simp_all
  note T1 = process_call_resilient [OF r1]
  note T2 = process_call_resilient [OF r2]
  note T3 = process_call_resilient [OF r3]
  note T4 = process_call_resilient [OF r4]
  have c: "call_id recorded_call = ''c1''" "call_id demo_call = ''c1''"
    by (simp_all add: recorded_call_def demo_call_def)
  have f: "asr failing_env = Some (\<lambda>u. Inl Exception)"
    "llm failing_env = Some (\<lambda>t. Inl Exception)"
    "flow_engine failing_env = Some (\<lambda>flow intent t. Inl Exception)"
    "tts failing_env = Some (\<lambda>reply cid. Inl Exception)"
    "list_flows failing_env = Inl Exception"
    by (simp_all add: failing_env_def)
  have b: "asr bare_env = None" "llm bare_env = None" "flow_engine bare_env = None"
    "tts bare_env = None"
    by (simp_all add: bare_env_def)
  have k: "flow_engine flaky_env = Some (\<lambda>flow intent t. Inl Exception)"
    "tts flaky_env = Some (\<lambda>reply cid. Inl Exception)"
    "maybe_get_flow_for_call flaky_env = Some support_flow"
    by (simp_all add: flaky_env_def default_env_def maybe_get_flow_for_call_def)
  have kr: "dict_get_default (stage_respond flaky_env (stage_transcribe flaky_env (media_url demo_call)))
      ''reply'' (PStr []) = PStr balance_reply"
    "PBool (truthy (dict_get_default
        (stage_respond flaky_env (stage_transcribe flaky_env (media_url demo_call)))
        ''escalate'' (PBool False))) = PBool False"
    by code_simp+
  have u: "media_bridge unbridged_env = Some (\<lambda>cid. Inl Exception)"
    "truthy (dict_get (fst (process_call unbridged_env received_world recorded_call)) ''escalated'')"
    by (simp add: unbridged_env_def, code_simp)
  have h13: "(\<exists>a. asr failing_env = Some a \<and> a (media_url recorded_call) = Inl Exception)
         \<and> (\<exists>l. llm failing_env = Some l
               \<and> l ''stubbed transcript: could not run ASR'' = Inl Exception)
         \<and> (\<forall>engine flow. flow_engine failing_env = Some engine \<longrightarrow>
               engine flow (PStr ''unknown'') ''stubbed transcript: could not run ASR''
                 = Inl Exception)
         \<and> (\<forall>client. tts failing_env = Some client \<longrightarrow>
               client (PStr ''Sorry, I couldn't process that right now.'') (call_id recorded_call)
                 = Inl Exception)"
    by (simp add: f)
  have h6: "\<exists>client. asr failing_env = Some client \<and> client (media_url recorded_call) = Inl Exception"
    and h8: "\<exists>client. llm failing_env = Some client
        \<and> client (stage_transcribe failing_env (media_url recorded_call)) = Inl Exception"
    by (simp_all add: f)
  have h14: "asr bare_env = None \<and> llm bare_env = None \<and> flow_engine bare_env = None
      \<and> tts bare_env = None"
    by (simp add: b)
  have h10: "\<exists>engine. flow_engine flaky_env = Some engine
      \<and> (maybe_get_flow_for_call flaky_env = None
          \<or> (\<exists>flow. maybe_get_flow_for_call flaky_env = Some flow
                \<and> engine flow (dict_get (fst (process_call flaky_env received_world demo_call))
                        ''intent'')
                      (stage_transcribe flaky_env (media_url demo_call)) = Inl Exception))"
    by (simp add: k)
  have h11: "\<exists>client. tts flaky_env = Some client
      \<and> client (dict_get (fst (process_call flaky_env received_world demo_call)) ''reply'')
            (call_id demo_call) = Inl Exception"
    by (simp add: k)
  have h12: "truthy (dict_get (fst (process_call unbridged_env received_world recorded_call))
        ''escalated'')
      \<and> (media_bridge unbridged_env = None
          \<or> (\<exists>bridge. media_bridge unbridged_env = Some bridge
                \<and> bridge (call_id recorded_call) = Inl Exception))"
    using u by simp
  from T1 [THEN conjunct2, THEN conjunct2, THEN conjunct2, THEN conjunct2, THEN conjunct2, THEN conjunct2, THEN conjunct2, THEN conjunct2, THEN conjunct2, THEN conjunct2, THEN conjunct2, THEN conjunct2, THEN conjunct1, THEN mp, OF h13]
  have a1: "fst (process_call failing_env failing_world recorded_call) =
     [(''call_id'', PStr ''c1''), (''intent'', PStr ''unknown''),
      (''reply'', PStr ''Sorry, I couldn't process that right now.''),
      (''media_out'', PNone), (''escalated'', PBool False), (''agent'', PNone)]"
    by (simp add: c)
  have e1: "dict_get (fst (process_call failing_env failing_world recorded_call)) ''reply'' =
      PStr ''Sorry, I couldn't process that right now.''"
    "\<not> truthy (dict_get (fst (process_call failing_env failing_world recorded_call)) ''escalated'')"
    unfolding a1 by (simp_all add: dict_get_def)
  from T1 [THEN conjunct2, THEN conjunct2, THEN conjunct1]
  have a2: "\<exists>s. (redis_sessions (snd (process_call failing_env failing_world recorded_call)) ''c1''
              = Some s
            \<or> INMEM_SESSIONS (snd (process_call failing_env failing_world recorded_call)) ''c1''
              = Some s)
         \<and> dict_get s ''status'' \<noteq> PStr ''received''
         \<and> dict_get s ''last_reply'' = PStr ''Sorry, I couldn't process that right now.''"
    by (auto simp: c e1)
  from T1 [THEN conjunct2, THEN conjunct2, THEN conjunct2, THEN conjunct1]
  have a3: "kept failing_world ''c1'' + 2
        \<le> kept (snd (process_call failing_env failing_world recorded_call)) ''c1''"
    by (simp add: c)
  note a4 = T1 [THEN conjunct2, THEN conjunct2, THEN conjunct2, THEN conjunct2, THEN conjunct2, THEN conjunct1, THEN mp, OF h6]
  note a5 = T1 [THEN conjunct2, THEN conjunct2, THEN conjunct2, THEN conjunct2, THEN conjunct2, THEN conjunct2, THEN conjunct2, THEN conjunct1, THEN mp, OF h8, THEN conjunct2]
  note a6 = T1 [THEN conjunct2, THEN conjunct2, THEN conjunct2, THEN conjunct2, THEN conjunct2, THEN conjunct2, THEN conjunct2, THEN conjunct2, THEN conjunct1, THEN mp, OF f(5)]
  from T2 [THEN conjunct2, THEN conjunct2, THEN conjunct2, THEN conjunct2, THEN conjunct2, THEN conjunct2, THEN conjunct2, THEN conjunct2, THEN conjunct2, THEN conjunct2, THEN conjunct2, THEN conjunct2, THEN conjunct2, THEN mp, OF h14]
  have b1: "fst (process_call bare_env received_world demo_call) =
     [(''call_id'', PStr ''c1''), (''intent'', PStr ''unknown''),
      (''reply'', PStr ''I didn't get that. Can you repeat?''),
      (''media_out'', PNone), (''escalated'', PBool False), (''agent'', PNone)]"
    by (simp add: c)
  note b2 = T2 [THEN conjunct2, THEN conjunct2, THEN conjunct2, THEN conjunct2, THEN conjunct1, THEN mp, OF b(1)]
  note b3 = T2 [THEN conjunct2, THEN conjunct2, THEN conjunct2, THEN conjunct2, THEN conjunct2, THEN conjunct2, THEN conjunct1, THEN mp, OF b(2)]
  from T3 [THEN conjunct2, THEN conjunct2, THEN conjunct2, THEN conjunct2, THEN conjunct2, THEN conjunct2, THEN conjunct2, THEN conjunct2, THEN conjunct2, THEN conjunct1, THEN mp, OF h10]
  have k1: "dict_get (fst (process_call flaky_env received_world demo_call)) ''reply''
        = PStr balance_reply"
    "dict_get (fst (process_call flaky_env received_world demo_call)) ''escalated''
        = PBool False"
    by (simp_all add: kr)
  note k2 = T3 [THEN conjunct2, THEN conjunct2, THEN conjunct2, THEN conjunct2, THEN conjunct2, THEN conjunct2, THEN conjunct2, THEN conjunct2, THEN conjunct2, THEN conjunct2, THEN conjunct1, THEN mp, OF h11]
  note u1 = T4 [THEN conjunct2, THEN conjunct2, THEN conjunct2, THEN conjunct2, THEN conjunct2, THEN conjunct2, THEN conjunct2, THEN conjunct2, THEN conjunct2, THEN conjunct2, THEN conjunct2, THEN conjunct1, THEN mp, OF h12]
  from a1 a2 a3 a4 a5 a6 b1 b2 b3 k1 k2 u1 show ?thesis
    by (intro conjI)
qed

section \<open>Consuming the flow engine's result\<close>

text \<open>
  \<open>run_flow\<close> returns a dictionary with both keys in each of its three exits, so the
  defaults of \<open>fe_result.get("reply", reply_text)\<close> and \<open>fe_result.get("escalate",
  escalate)\<close> are never used: with the repository's engine and a stored flow, the reply and
  the flag after the flow step are the engine's, whatever they are.
\<close>

lemma run_flow_keys: "map fst (run_flow flow intent t) = [''reply'', ''escalate'']"
proof -
  have "intent_loop ns intent = Some r \<Longrightarrow> map fst r = [''reply'', ''escalate'']" for ns r
    by (induction ns) (auto split: if_splits)
  moreover have "start_loop ns = Some r \<Longrightarrow> map fst r = [''reply'', ''escalate'']" for ns r
    by (induction ns) (auto split: if_splits)
  ultimately show ?thesis
    by (auto simp: run_flow_def split: option.splits)
qed

lemma stage_flow_run_flow:
  assumes "flow_engine e = Some (\<lambda>flow intent t. Inr (run_flow flow intent t))"
    and "maybe_get_flow_for_call e = Some flow"
  shows "stage_flow e intent asr_text reply_text escalate =
     (dict_get (run_flow flow intent asr_text) ''reply'',
      dict_get (run_flow flow intent asr_text) ''escalate'')"
proof -
  from run_flow_keys [of flow intent asr_text]
  obtain r x where "run_flow flow intent asr_text = [(''reply'', r), (''escalate'', x)]"
    by (auto simp: map_eq_Cons_conv)
  with assms show ?thesis
    by (simp add: stage_flow_def dict_get_def dict_get_default_def)
qed

text \<open>
  Claim C2, at an input where the code departs from it. The stored flow has one node, for
  \<open>connect_agent\<close>, and no start prompt; the caller asks for the balance. The Responder
  replies with the balance, the engine returns \<open>{"reply": None, "escalate": False}\<close>, and
  the run ends with no reply at all, in the summary and in the session.
\<close>

theorem flow_result_without_reply:
  "dict_get (responded (default_env [support_flow]) demo_call) ''reply'' = PStr balance_reply
   \<and> run_flow support_flow (PStr ''account_balance'')
         ''stubbed transcript: hello I want my account balance''
       = [(''reply'', PNone), (''escalate'', PBool False)]
   \<and> dict_get (fst (process_call (default_env [support_flow]) received_world demo_call)) ''reply''
       = PNone
   \<and> session_field (snd (process_call (default_env [support_flow]) received_world demo_call))
         ''c1'' ''last_reply'' = PNone"
  by code_simp

end
